theory Spec2Isabelle
  imports Main "HOL-Library.Sublist"
begin

section \<open>Text primitives of the Python runtime\<close>

text \<open>
  The program of \<^verbatim>\<open>src/new.py\<close> is string glue around two external services. Python
  strings are modelled as \<^typ>\<open>string\<close>. The case mappings, \<^verbatim>\<open>str.strip\<close>,
  \<^verbatim>\<open>str.title\<close> and the regular-expression class \<^verbatim>\<open>\s\<close> are modelled on the
  ASCII range, where they are given by the tables below; characters outside ASCII are
  carried through unchanged, as caseless characters that are not white space.
\<close>

definition is_space :: "char \<Rightarrow> bool" where
  \<comment> \<open>\<^verbatim>\<open>str.isspace\<close> and \<^verbatim>\<open>\s\<close> on ASCII: TAB, LF, VT, FF, CR, FS, GS, RS, US, SPACE\<close>
  "is_space c \<longleftrightarrow> (let n = (of_char c :: nat) in (9 \<le> n \<and> n \<le> 13) \<or> (28 \<le> n \<and> n \<le> 32))"

definition is_upper :: "char \<Rightarrow> bool" where
  "is_upper c \<longleftrightarrow> (let n = (of_char c :: nat) in 65 \<le> n \<and> n \<le> 90)"

definition is_lower :: "char \<Rightarrow> bool" where
  "is_lower c \<longleftrightarrow> (let n = (of_char c :: nat) in 97 \<le> n \<and> n \<le> 122)"

definition lower_chr :: "char \<Rightarrow> char" where
  "lower_chr c = (if is_upper c then char_of ((of_char c :: nat) + 32) else c)"

definition upper_chr :: "char \<Rightarrow> char" where
  "upper_chr c = (if is_lower c then char_of ((of_char c :: nat) - 32) else c)"

definition lower :: "string \<Rightarrow> string" where
  \<comment> \<open>\<^verbatim>\<open>str.lower()\<close>\<close>
  "lower s = map lower_chr s"

definition strip :: "string \<Rightarrow> string" where
  \<comment> \<open>\<^verbatim>\<open>str.strip()\<close>: white space removed at both ends\<close>
  "strip s = rev (dropWhile is_space (rev (dropWhile is_space s)))"

fun title_from :: "bool \<Rightarrow> string \<Rightarrow> string" where
  \<comment> \<open>the loop of \<^verbatim>\<open>str.title()\<close>; the flag is its \<^verbatim>\<open>previous_is_cased\<close>\<close>
  "title_from prev [] = []"
| "title_from prev (c # cs) =
     (if is_lower c then (if prev then c else upper_chr c) # title_from True cs
      else if is_upper c then (if prev then lower_chr c else c) # title_from True cs
      else c # title_from False cs)"

definition title :: "string \<Rightarrow> string" where
  \<comment> \<open>\<^verbatim>\<open>str.title()\<close>\<close>
  "title s = title_from False s"

definition contains :: "string \<Rightarrow> string \<Rightarrow> bool" where
  \<comment> \<open>\<^verbatim>\<open>needle in hay\<close> on two strings\<close>
  "contains needle hay \<longleftrightarrow> sublist needle hay"

definition nl :: string where
  \<comment> \<open>the line feed, \<^verbatim>\<open>\n\<close>\<close>
  "nl = [CHR 0x0A]"

section \<open>The two regular expressions\<close>

text \<open>
  \<^verbatim>\<open>re.search\<close> is a backtracking matcher: it tries the start positions from left to
  right and, at each one, the alternatives of every quantifier in priority order (a greedy
  quantifier the longest first, a lazy one the shortest first). Each piece of a pattern is
  a function that consumes a prefix of the remaining text and hands the rest to its
  continuation; \<open>None\<close> is failure, after which the caller tries its next alternative.
\<close>

fun lit_ci :: "string \<Rightarrow> string \<Rightarrow> string option" where
  \<comment> \<open>a literal under \<^verbatim>\<open>re.IGNORECASE\<close>; the literal is given in lower case\<close>
  "lit_ci [] s = Some s"
| "lit_ci (p # ps) [] = None"
| "lit_ci (p # ps) (c # cs) = (if lower_chr c = p then lit_ci ps cs else None)"

fun spaces_greedy :: "(string \<Rightarrow> 'a option) \<Rightarrow> string \<Rightarrow> 'a option" where
  \<comment> \<open>\<^verbatim>\<open>\s+\<close> followed by the continuation \<open>k\<close>: one white-space character, then more
     of them first, and the continuation on what is left when that fails\<close>
  "spaces_greedy k [] = None"
| "spaces_greedy k (c # cs) =
     (if is_space c
      then (case spaces_greedy k cs of Some r \<Rightarrow> Some r | None \<Rightarrow> k cs)
      else None)"

fun dot_lazy :: "(string \<Rightarrow> 'a option) \<Rightarrow> string \<Rightarrow> string \<Rightarrow> (string \<times> 'a) option" where
  \<comment> \<open>the group \<^verbatim>\<open>(.+?)\<close> followed by \<open>k\<close>: one character other than the line feed
     (the pattern is compiled without \<^verbatim>\<open>re.DOTALL\<close>), then the continuation first, and
     one more character when that fails; \<open>acc\<close> is the text captured so far\<close>
  "dot_lazy k acc [] = None"
| "dot_lazy k acc (c # cs) =
     (if c = CHR 0x0A then None
      else (case k cs of
              Some r \<Rightarrow> Some (acc @ [c], r)
            | None \<Rightarrow> dot_lazy k (acc @ [c]) cs))"

definition remove_match_here :: "string \<Rightarrow> string option" where
  \<comment> \<open>\<^verbatim>\<open>remove\s+(.+?)\s+row\<close> with \<^verbatim>\<open>re.IGNORECASE\<close>, anchored at the start of the
     text; the result is group 1\<close>
  "remove_match_here s =
     (case lit_ci ''remove'' s of
        None \<Rightarrow> None
      | Some r1 \<Rightarrow>
          map_option fst
            (spaces_greedy (\<lambda>r2. dot_lazy (\<lambda>r3. spaces_greedy (lit_ci ''row'') r3) [] r2) r1))"

fun remove_search :: "string \<Rightarrow> string option" where
  \<comment> \<open>\<^verbatim>\<open>re.search(remove_pattern, text, re.IGNORECASE)\<close>: the leftmost start position
     with a match; \<open>Some g\<close> is a match whose group 1 is \<open>g\<close>\<close>
  "remove_search [] = remove_match_here []"
| "remove_search (c # cs) =
     (case remove_match_here (c # cs) of
        Some g \<Rightarrow> Some g
      | None \<Rightarrow> remove_search cs)"

fun split_at_first :: "string \<Rightarrow> string \<Rightarrow> (string \<times> string) option" where
  \<comment> \<open>the text before and after the leftmost occurrence of a literal\<close>
  "split_at_first p [] = (if p = [] then Some ([], []) else None)"
| "split_at_first p (c # cs) =
     (if prefix p (c # cs) then Some ([], drop (length p) (c # cs))
      else map_option (\<lambda>(a, b). (c # a, b)) (split_at_first p cs))"

definition fence_open :: string where
  "fence_open = ''```json'' @ nl"

definition fence_close :: string where
  "fence_close = nl @ ''```''"

definition json_search :: "string \<Rightarrow> string option" where
  \<comment> \<open>\<^verbatim>\<open>re.search(r'```json\n(.*?)\n```', response_text, re.DOTALL)\<close>: the leftmost opening
     fence that has a closing fence after it, and in group 1 the text up to the first such
     closing fence (the group is lazy, and with \<^verbatim>\<open>re.DOTALL\<close> it crosses lines)\<close>
  "json_search s =
     (case split_at_first fence_open s of
        None \<Rightarrow> None
      | Some (before, rest) \<Rightarrow> map_option fst (split_at_first fence_close rest))"

section \<open>The classifier\<close>

definition job_keywords :: "string list" where
  "job_keywords =
     [''applied'', ''application'', ''applying'', ''job'', ''position'',
      ''role'', ''interview'', ''company'', ''submitted'', ''sent resume'']"

definition is_job_application :: "string \<Rightarrow> string option" where
  \<comment> \<open>\<^verbatim>\<open>JobTracker.is_job_application\<close>; Python's \<^verbatim>\<open>None\<close> is \<open>None\<close>\<close>
  "is_job_application text =
     (if remove_search text \<noteq> None then Some ''remove''
      else if list_ex (\<lambda>keyword. contains keyword (lower text)) job_keywords then Some ''application''
      else None)"

section \<open>Data model\<close>

record details =
  Company_Name :: string
  Role :: string
  Date :: string
  Platform :: string
  Accept :: string

record message =
  role :: string
  content :: string
  job_details :: "details option"

text \<open>What \<^verbatim>\<open>json.loads\<close> returns. An object is the list of the items of the Python dict.\<close>

datatype json =
    JNull
  | JBool bool
  | JInt int
  | JFloat string
  | JStr string
  | JArr "json list"
  | JObj "(string \<times> json) list"

text \<open>
  The language model, the JSON parser of the standard library and the clock are outside
  the program. They are parameters: \<open>generate_content\<close> maps a prompt to the text of the
  response, or to \<open>Inl e\<close> when the call raises an exception whose \<^verbatim>\<open>str\<close> is \<open>e\<close>;
  \<open>json_loads\<close> is \<open>None\<close> where \<^verbatim>\<open>json.loads\<close> raises \<^verbatim>\<open>JSONDecodeError\<close>; the two dates
  are \<^verbatim>\<open>datetime.now().strftime('%Y-%m-%d')\<close> when the prompt is built and when the
  response is read.
\<close>

record services =
  generate_content :: "string \<Rightarrow> string + string"
  json_loads :: "string \<Rightarrow> json option"
  today_prompt :: string
  today_parse :: string

subsection \<open>The spreadsheet\<close>

text \<open>
  The spreadsheet client is an external library; the program uses four of its calls. The
  worksheet is the table of its rows of cells, the header row first; a stored cell is a
  text. \<^verbatim>\<open>row_values(1)\<close> is the header row as texts. \<^verbatim>\<open>get_all_records()\<close> is one dict
  per data row with the header cells as keys, and it converts every value with the
  client's \<^verbatim>\<open>numericise\<close>: a text that reads as a number comes back as an \<^verbatim>\<open>int\<close> or a
  \<^verbatim>\<open>float\<close>, every other text as it is. The program never reads the number, only its type
  (a number has no \<^verbatim>\<open>lower\<close> and equals no string), so a converted cell is \<open>CInt\<close> or
  \<open>CFloat\<close>. The conversion is a field of the worksheet, so that the theorems hold for
  whatever the installed client takes for a number; \<open>python_numericise\<close> below is the
  conversion of the client's default settings on ASCII text.
  \<^verbatim>\<open>append_row\<close> adds a row below the last one, and \<^verbatim>\<open>delete_rows(i)\<close> removes row \<open>i\<close>,
  counted from 1 with the header as row 1.
  Every call is recorded in \<open>log\<close>, and the call number \<open>n\<close> (counted from 0) raises an
  exception with text \<open>e\<close> when \<open>faults n = Some e\<close>, so that any pattern of failing calls
  is a worksheet of the model.
\<close>

datatype call = RowValues nat | GetAllRecords | AppendRow "string list" | DeleteRows nat

datatype cell = CStr string | CInt | CFloat

record worksheet =
  cells :: "string list list"
  log :: "call list"
  faults :: "nat \<Rightarrow> string option"
  numericise :: "string \<Rightarrow> cell"

definition api :: "call \<Rightarrow> worksheet \<Rightarrow> string option \<times> worksheet" where
  "api c ws = (faults ws (length (log ws)), ws\<lparr>log := log ws @ [c]\<rparr>)"

definition header :: "worksheet \<Rightarrow> string list" where
  "header ws = (case cells ws of [] \<Rightarrow> [] | h # _ \<Rightarrow> h)"

definition data_rows :: "worksheet \<Rightarrow> string list list" where
  "data_rows ws = tl (cells ws)"

definition row_values :: "worksheet \<Rightarrow> (string + string list) \<times> worksheet" where
  \<comment> \<open>\<^verbatim>\<open>sheet.row_values(1)\<close>\<close>
  "row_values ws =
     (case api (RowValues 1) ws of
        (Some e, ws') \<Rightarrow> (Inl e, ws')
      | (None, ws') \<Rightarrow> (Inr (header ws'), ws'))"

definition record_of :: "(string \<Rightarrow> cell) \<Rightarrow> string list \<Rightarrow> string list \<Rightarrow> (string \<rightharpoonup> cell)" where
  \<comment> \<open>\<^verbatim>\<open>dict(zip(keys, row))\<close> on a row filled up with empty cells to the width of the
     header and converted cell by cell; of two equal keys the later one stays\<close>
  "record_of conv keys row =
     map_of (rev (zip keys (map conv (row @ replicate (length keys - length row) []))))"

definition get_all_records :: "worksheet \<Rightarrow> (string + (string \<rightharpoonup> cell) list) \<times> worksheet" where
  \<comment> \<open>\<^verbatim>\<open>sheet.get_all_records()\<close>\<close>
  "get_all_records ws =
     (case api GetAllRecords ws of
        (Some e, ws') \<Rightarrow> (Inl e, ws')
      | (None, ws') \<Rightarrow>
          (Inr (map (record_of (numericise ws') (header ws')) (data_rows ws')), ws'))"

text \<open>
  The conversion of the client with its default settings, on ASCII text: a value with an
  underscore stays a text; a value that \<^verbatim>\<open>int\<close> accepts (white space around an optional
  sign and decimal digits) is an \<^verbatim>\<open>int\<close>; a value that \<^verbatim>\<open>float\<close> accepts (white space
  around an optional sign and either \<^verbatim>\<open>inf\<close>, \<^verbatim>\<open>infinity\<close> or \<^verbatim>\<open>nan\<close> in any case, or
  digits with at most one point and an optional exponent) is a \<^verbatim>\<open>float\<close>; every other
  value, the empty one too, stays a text. (Python's bound on the number of digits of an
  \<^verbatim>\<open>int\<close>, beyond which the value is read as a \<^verbatim>\<open>float\<close>, is left out.)
\<close>

definition is_digit :: "char \<Rightarrow> bool" where
  "is_digit c \<longleftrightarrow> (let n = (of_char c :: nat) in 48 \<le> n \<and> n \<le> 57)"

definition all_digits :: "string \<Rightarrow> bool" where
  "all_digits s \<longleftrightarrow> s \<noteq> [] \<and> list_all is_digit s"

definition unsigned :: "string \<Rightarrow> string" where
  "unsigned s =
     (case s of [] \<Rightarrow> [] | c # cs \<Rightarrow> if c = CHR ''+'' \<or> c = CHR ''-'' then cs else s)"

definition looks_int :: "string \<Rightarrow> bool" where
  "looks_int s \<longleftrightarrow> all_digits (unsigned (strip s))"

definition mantissa_ok :: "string \<Rightarrow> bool" where
  "mantissa_ok m \<longleftrightarrow>
     (let a = takeWhile is_digit m; r = dropWhile is_digit m
      in case r of
           [] \<Rightarrow> a \<noteq> []
         | c # b \<Rightarrow> c = CHR ''.'' \<and> list_all is_digit b \<and> a @ b \<noteq> [])"

definition exponent_ok :: "string \<Rightarrow> bool" where
  "exponent_ok e \<longleftrightarrow> (case e of [] \<Rightarrow> True | c # x \<Rightarrow> all_digits (unsigned x))"

definition is_e :: "char \<Rightarrow> bool" where
  "is_e c \<longleftrightarrow> c = CHR ''e'' \<or> c = CHR ''E''"

definition looks_float :: "string \<Rightarrow> bool" where
  "looks_float s \<longleftrightarrow>
     (let u = unsigned (strip s)
      in lower u \<in> set [''inf'', ''infinity'', ''nan'']
         \<or> (mantissa_ok (takeWhile (\<lambda>c. \<not> is_e c) u)
            \<and> exponent_ok (dropWhile (\<lambda>c. \<not> is_e c) u)))"

definition python_numericise :: "string \<Rightarrow> cell" where
  "python_numericise v =
     (if CHR ''_'' \<in> set v then CStr v
      else if looks_int v then CInt
      else if looks_float v then CFloat
      else CStr v)"

definition append_row :: "string list \<Rightarrow> worksheet \<Rightarrow> (string + unit) \<times> worksheet" where
  \<comment> \<open>\<^verbatim>\<open>sheet.append_row(row_data)\<close>\<close>
  "append_row row_data ws =
     (case api (AppendRow row_data) ws of
        (Some e, ws') \<Rightarrow> (Inl e, ws')
      | (None, ws') \<Rightarrow> (Inr (), ws'\<lparr>cells := cells ws' @ [row_data]\<rparr>))"

definition delete_rows :: "nat \<Rightarrow> worksheet \<Rightarrow> (string + unit) \<times> worksheet" where
  \<comment> \<open>\<^verbatim>\<open>sheet.delete_rows(row_index)\<close>; rows are counted from 1, the header is row 1\<close>
  "delete_rows row_index ws =
     (case api (DeleteRows row_index) ws of
        (Some e, ws') \<Rightarrow> (Inl e, ws')
      | (None, ws') \<Rightarrow>
          (Inr (), ws'\<lparr>cells := take (row_index - 1) (cells ws') @ drop row_index (cells ws')\<rparr>))"

record tracker =
  gemini_configured :: bool
  sheets_configured :: bool
  sheet :: "worksheet option"

record session =
  messages :: "message list"
  job_tracker :: tracker

section \<open>Formatting helpers\<close>

definition apos :: string where
  "apos = [CHR 0x27]"

definition dq :: string where
  "dq = [CHR 0x22]"

definition digit :: "nat \<Rightarrow> char" where
  "digit d = char_of (48 + d)"

function dec :: "nat \<Rightarrow> string" where
  \<comment> \<open>\<^verbatim>\<open>str(n)\<close> of a count, as an f-string prints \<^verbatim>\<open>len(...)\<close>\<close>
  "dec n = (if n < 10 then [digit n] else dec (n div 10) @ [digit (n mod 10)])"
  by pat_completeness auto
termination
  by (relation "measure id") auto

declare dec.simps [simp del]

definition last6 :: "'a list \<Rightarrow> 'a list" where
  \<comment> \<open>\<^verbatim>\<open>conversation_history[-6:]\<close>\<close>
  "last6 xs = drop (length xs - 6) xs"

definition history_lines :: "message list \<Rightarrow> string" where
  \<comment> \<open>one line \<^verbatim>\<open>f"{msg['role'].title()}: {msg['content']}\n"\<close> per message\<close>
  "history_lines ms = concat (map (\<lambda>msg. title (role msg) @ '': '' @ content msg @ nl) (last6 ms))"

section \<open>Extraction\<close>

definition empty_details :: details where
  \<comment> \<open>the initial value of \<^verbatim>\<open>details\<close> in \<^verbatim>\<open>extract_job_details\<close>\<close>
  "empty_details =
     \<lparr>Company_Name = [], Role = [], Date = [], Platform = [], Accept = ''Pending''\<rparr>"

definition extraction_prompt :: "string \<Rightarrow> string \<Rightarrow> message list \<Rightarrow> string" where
  "extraction_prompt today text conversation_history =
     nl @ ''You are a Job Application Assistant that extracts job application details from user input. The user has provided the following text: ''
     @ dq @ text @ dq @ nl
     @ nl
     @ ''Extract the following details:'' @ nl
     @ ''- Company Name'' @ nl
     @ ''- Role'' @ nl
     @ ''- Date (in YYYY-MM-DD format, use today'' @ apos @ ''s date '' @ today
     @ '' if not specified, convert '' @ apos @ ''today'' @ apos @ '' or '' @ apos @ ''yesterday'' @ apos
     @ '' appropriately)'' @ nl
     @ ''- Platform (e.g., LinkedIn, Indeed, company website, etc.)'' @ nl
     @ ''- Status (default to '' @ apos @ ''Pending'' @ apos @ '' unless specified)'' @ nl
     @ nl
     @ ''Return the details in JSON format. If any detail is missing or unclear, leave it as an empty string, except for Date (use today''
     @ apos @ ''s date) and Status (use '' @ apos @ ''Pending'' @ apos
     @ ''). If the input doesn'' @ apos
     @ ''t seem to be a job application, return empty details and indicate it''
     @ apos @ ''s not a valid application.'' @ nl
     @ nl
     @ ''Conversation history for context (last 6 messages):'' @ nl
     @ history_lines conversation_history
     @ nl @ ''Return: ```json'' @ nl @ ''{}'' @ nl @ ''```''"

fun py_type_name :: "json \<Rightarrow> string" where
  "py_type_name JNull = ''NoneType''"
| "py_type_name (JBool b) = ''bool''"
| "py_type_name (JInt i) = ''int''"
| "py_type_name (JFloat f) = ''float''"
| "py_type_name (JStr s) = ''str''"
| "py_type_name (JArr xs) = ''list''"
| "py_type_name (JObj kvs) = ''dict''"

definition attribute_error :: "json \<Rightarrow> string \<Rightarrow> string" where
  \<comment> \<open>the text of the \<^verbatim>\<open>AttributeError\<close> for a method that the value does not have\<close>
  "attribute_error v attr =
     apos @ py_type_name v @ apos @ '' object has no attribute '' @ apos @ attr @ apos"

definition get_stripped :: "(string \<times> json) list \<Rightarrow> string \<Rightarrow> string \<Rightarrow> string + string" where
  \<comment> \<open>\<^verbatim>\<open>extracted_details.get(key, default).strip()\<close>: only a string has \<^verbatim>\<open>strip\<close>\<close>
  "get_stripped obj key dflt =
     (case (case map_of obj key of None \<Rightarrow> JStr dflt | Some v \<Rightarrow> v) of
        JStr s \<Rightarrow> Inr (strip s)
      | v \<Rightarrow> Inl (attribute_error v ''strip''))"

definition bind_exn :: "'e + 'a \<Rightarrow> ('a \<Rightarrow> 'e + 'b) \<Rightarrow> 'e + 'b" where
  \<comment> \<open>sequencing inside a \<^verbatim>\<open>try\<close> block: an exception skips the rest\<close>
  "bind_exn r f = (case r of Inl e \<Rightarrow> Inl e | Inr x \<Rightarrow> f x)"

definition read_details :: "string \<Rightarrow> json \<Rightarrow> string + (details \<times> bool \<times> string)" where
  \<comment> \<open>lines 203 to 211: the five fields in the order of the dict display, then the flag\<close>
  "read_details today extracted_details =
     (case extracted_details of
        JObj obj \<Rightarrow>
          bind_exn (get_stripped obj ''Company Name'' []) (\<lambda>company.
          bind_exn (get_stripped obj ''Role'' []) (\<lambda>rl.
          bind_exn (get_stripped obj ''Date'' today) (\<lambda>dt.
          bind_exn (get_stripped obj ''Platform'' []) (\<lambda>platform.
          bind_exn (get_stripped obj ''Status'' ''Pending'') (\<lambda>status.
            let d = \<lparr>Company_Name = title company, Role = title rl, Date = dt,
                     Platform = title platform, Accept = status\<rparr>;
                is_valid = (Company_Name d \<noteq> [] \<and> Role d \<noteq> [])
            in Inr (d, is_valid, ''Successfully extracted details''))))))
      | v \<Rightarrow> Inl (attribute_error v ''get''))"

definition extract_try :: "services \<Rightarrow> string \<Rightarrow> message list \<Rightarrow> string + (details \<times> bool \<times> string)" where
  \<comment> \<open>the outer \<^verbatim>\<open>try\<close> block of \<^verbatim>\<open>extract_job_details\<close>; \<open>Inl e\<close> is an exception that
     reaches its \<^verbatim>\<open>except Exception\<close>\<close>
  "extract_try sv text conversation_history =
     bind_exn (generate_content sv (extraction_prompt (today_prompt sv) text conversation_history))
       (\<lambda>response.
          let response_text = strip response in
          case json_search response_text of
            None \<Rightarrow> Inr (empty_details, False, ''No valid job application details found'')
          | Some group1 \<Rightarrow>
              (case json_loads sv group1 of
                 None \<Rightarrow> Inr (empty_details, False, ''Failed to parse Gemini AI response'')
               | Some extracted_details \<Rightarrow> read_details (today_parse sv) extracted_details))"

definition extract_job_details ::
  "tracker \<Rightarrow> services \<Rightarrow> string \<Rightarrow> message list \<Rightarrow> details \<times> bool \<times> string" where
  "extract_job_details tr sv text conversation_history =
     (if \<not> gemini_configured tr then (empty_details, False, ''Gemini AI not configured'')
      else case extract_try sv text conversation_history of
             Inl e \<Rightarrow> (empty_details, False, ''Error extracting details with Gemini AI: '' @ e)
           | Inr r \<Rightarrow> r)"

section \<open>The application tracker\<close>

definition not_configured :: string where
  "not_configured =
     ''Google Sheets not configured. Please check your secrets and sheet permissions.''"

definition expected_headers :: "string list" where
  "expected_headers = [''Company Name'', ''Role'', ''Date'', ''Platform'', ''Accept'']"

definition get_or :: "(string \<rightharpoonup> cell) \<Rightarrow> string \<Rightarrow> string \<Rightarrow> cell" where
  \<comment> \<open>\<^verbatim>\<open>record.get(key, default)\<close> with a string as the default\<close>
  "get_or rec key dflt = (case rec key of None \<Rightarrow> CStr dflt | Some v \<Rightarrow> v)"

fun cell_type_name :: "cell \<Rightarrow> string" where
  "cell_type_name (CStr s) = ''str''"
| "cell_type_name CInt = ''int''"
| "cell_type_name CFloat = ''float''"

definition lower_of :: "cell \<Rightarrow> string + string" where
  \<comment> \<open>\<^verbatim>\<open>value.lower()\<close>: a number has no such method, and the call raises
     \<^verbatim>\<open>AttributeError\<close>\<close>
  "lower_of v =
     (case v of
        CStr s \<Rightarrow> Inr (lower s)
      | _ \<Rightarrow> Inl (apos @ cell_type_name v @ apos @ '' object has no attribute ''
                  @ apos @ ''lower'' @ apos))"

definition is_duplicate :: "details \<Rightarrow> (string \<rightharpoonup> cell) \<Rightarrow> string + bool" where
  \<comment> \<open>the test of the loop at lines 235 to 237: \<^verbatim>\<open>and\<close> evaluates its right operand
     only when the left one is true, and a number equals no string\<close>
  "is_duplicate d rec =
     bind_exn (lower_of (get_or rec ''Company Name'' [])) (\<lambda>company.
       if company \<noteq> lower (Company_Name d) then Inr False
       else bind_exn (lower_of (get_or rec ''Role'' [])) (\<lambda>rl.
         Inr (rl = lower (Role d) \<and> rec ''Date'' = Some (CStr (Date d)))))"

fun find_duplicate :: "details \<Rightarrow> (string \<rightharpoonup> cell) list \<Rightarrow> string + bool" where
  \<comment> \<open>the loop at lines 234 to 238; \<open>Inr True\<close> is its \<^verbatim>\<open>return\<close>\<close>
  "find_duplicate d [] = Inr False"
| "find_duplicate d (rec # recs) =
     (case is_duplicate d rec of
        Inl e \<Rightarrow> Inl e
      | Inr found \<Rightarrow> if found then Inr True else find_duplicate d recs)"

definition row_data :: "details \<Rightarrow> string list" where
  "row_data d = [Company_Name d, Role d, Date d, Platform d, Accept d]"

definition add_try :: "details \<Rightarrow> worksheet \<Rightarrow> (string + bool \<times> string) \<times> worksheet" where
  \<comment> \<open>the \<^verbatim>\<open>try\<close> block of \<^verbatim>\<open>add_to_sheet\<close>\<close>
  "add_try d ws =
     (case row_values ws of
        (Inl e, ws1) \<Rightarrow> (Inl e, ws1)
      | (Inr headers, ws1) \<Rightarrow>
          if \<not> list_all (\<lambda>h. h \<in> set headers) expected_headers
          then (Inr (False,
                 ''Invalid sheet structure. Ensure columns are: Company Name, Role, Date, Platform, Accept''),
                ws1)
          else (case get_all_records ws1 of
                  (Inl e, ws2) \<Rightarrow> (Inl e, ws2)
                | (Inr records, ws2) \<Rightarrow>
                    (case find_duplicate d records of
                       Inl e \<Rightarrow> (Inl e, ws2)
                     | Inr found \<Rightarrow>
                         if found
                         then (Inr (False, ''This job application already exists''), ws2)
                         else (case append_row (row_data d) ws2 of
                                 (Inl e, ws3) \<Rightarrow> (Inl e, ws3)
                               | (Inr u, ws3) \<Rightarrow>
                                   (Inr (True, ''Successfully added to your job tracker!''),
                                    ws3)))))"

definition add_to_sheet :: "tracker \<Rightarrow> details \<Rightarrow> (bool \<times> string) \<times> tracker" where
  "add_to_sheet tr d =
     (case (sheets_configured tr, sheet tr) of
        (True, Some ws) \<Rightarrow>
          (case add_try d ws of
             (Inl e, ws') \<Rightarrow>
               ((False, ''Error saving to sheet: '' @ e
                        @ ''. Ensure the service account has edit permissions.''),
                tr\<lparr>sheet := Some ws'\<rparr>)
           | (Inr r, ws') \<Rightarrow> (r, tr\<lparr>sheet := Some ws'\<rparr>))
      | _ \<Rightarrow> ((False, not_configured), tr))"

fun rows_to_delete :: "nat \<Rightarrow> (string \<rightharpoonup> cell) list \<Rightarrow> string \<Rightarrow> string + nat list" where
  \<comment> \<open>the loop over \<^verbatim>\<open>enumerate(records, start=i)\<close> at lines 265 to 267\<close>
  "rows_to_delete i [] company_name = Inr []"
| "rows_to_delete i (rec # recs) company_name =
     bind_exn (lower_of (get_or rec ''Company Name'' [])) (\<lambda>company.
       bind_exn (rows_to_delete (Suc i) recs company_name) (\<lambda>later.
         Inr (if company = lower company_name then i # later else later)))"

fun delete_each :: "nat list \<Rightarrow> worksheet \<Rightarrow> (string + unit) \<times> worksheet" where
  \<comment> \<open>the loop of calls of \<^verbatim>\<open>delete_rows\<close>; an exception ends it\<close>
  "delete_each [] ws = (Inr (), ws)"
| "delete_each (row_index # rest) ws =
     (case delete_rows row_index ws of
        (Inl e, ws') \<Rightarrow> (Inl e, ws')
      | (Inr u, ws') \<Rightarrow> delete_each rest ws')"

definition remove_try :: "string \<Rightarrow> worksheet \<Rightarrow> (string + bool \<times> string) \<times> worksheet" where
  \<comment> \<open>the \<^verbatim>\<open>try\<close> block of \<^verbatim>\<open>remove_from_sheet\<close>\<close>
  "remove_try company_name ws =
     (case get_all_records ws of
        (Inl e, ws1) \<Rightarrow> (Inl e, ws1)
      | (Inr records, ws1) \<Rightarrow>
          (case rows_to_delete 2 records company_name of
             Inl e \<Rightarrow> (Inl e, ws1)
           | Inr to_delete \<Rightarrow>
               if to_delete \<noteq> []
               then (case delete_each (rev (sort to_delete)) ws1 of
                       (Inl e, ws2) \<Rightarrow> (Inl e, ws2)
                     | (Inr u, ws2) \<Rightarrow>
                         (Inr (True, ''Successfully removed '' @ dec (length to_delete)
                                     @ '' application(s) for '' @ title company_name
                                     @ '' from your job tracker!''), ws2))
               else (Inr (False, ''No application found for '' @ title company_name
                                 @ '' in your job tracker.''), ws1)))"

definition remove_from_sheet :: "tracker \<Rightarrow> string \<Rightarrow> (bool \<times> string) \<times> tracker" where
  "remove_from_sheet tr company_name =
     (case (sheets_configured tr, sheet tr) of
        (True, Some ws) \<Rightarrow>
          (case remove_try company_name ws of
             (Inl e, ws') \<Rightarrow>
               ((False, ''Error removing from sheet: '' @ e
                        @ ''. Ensure the service account has edit permissions.''),
                tr\<lparr>sheet := Some ws'\<rparr>)
           | (Inr r, ws') \<Rightarrow> (r, tr\<lparr>sheet := Some ws'\<rparr>))
      | _ \<Rightarrow> ((False, not_configured), tr))"

section \<open>The responder\<close>

definition persona :: string where
  "persona =
     ''You are a Job Application Assistant developed by Soham. You help users track their job applications in a friendly, conversational way.'' @ nl
     @ nl
     @ ''Your main functions:'' @ nl
     @ ''1. Help users log their job applications (details are handled separately)'' @ nl
     @ ''2. Provide encouragement and support during their job search'' @ nl
     @ ''3. Answer questions about job searching and applications'' @ nl
     @ ''4. Maintain a positive, helpful attitude'' @ nl
     @ nl
     @ ''When users mention job applications, acknowledge their effort and let them know you''
     @ apos @ ''re tracking it.'' @ nl
     @ nl
     @ ''Conversation history:'' @ nl"

definition get_ai_response :: "tracker \<Rightarrow> services \<Rightarrow> string \<Rightarrow> message list \<Rightarrow> string" where
  "get_ai_response tr sv prompt conversation_history =
     (if \<not> gemini_configured tr
      then ''I'' @ apos @ ''m having trouble connecting to my AI service. Please check the GEMINI_API_KEY in your secrets.''
      else case generate_content sv
                  (persona @ history_lines conversation_history
                   @ nl @ ''User: '' @ prompt @ nl @ ''Assistant:'') of
             Inl e \<Rightarrow> ''I'' @ apos @ ''m having some technical difficulties right now. Error: '' @ e
           | Inr text \<Rightarrow> text)"

section \<open>The turn loop\<close>

definition party :: string where
  \<comment> \<open>U+1F389 in UTF-8\<close>
  "party = [CHR 0xF0, CHR 0x9F, CHR 0x8E, CHR 0x89]"

definition biceps :: string where
  \<comment> \<open>U+1F4AA in UTF-8\<close>
  "biceps = [CHR 0xF0, CHR 0x9F, CHR 0x92, CHR 0xAA]"

definition thumbs_up :: string where
  \<comment> \<open>U+1F44D in UTF-8\<close>
  "thumbs_up = [CHR 0xF0, CHR 0x9F, CHR 0x91, CHR 0x8D]"

definition user_message :: "string \<Rightarrow> message" where
  "user_message prompt = \<lparr>role = ''user'', content = prompt, job_details = None\<rparr>"

definition assistant_message :: "string \<Rightarrow> details option \<Rightarrow> message" where
  \<comment> \<open>a message without the key \<^verbatim>\<open>job_details\<close> has \<open>None\<close> there\<close>
  "assistant_message response jd = \<lparr>role = ''assistant'', content = response, job_details = jd\<rparr>"

definition clarification :: "string \<Rightarrow> string" where
  "clarification extraction_message =
     ''I couldn'' @ apos @ ''t extract enough details from your input: '' @ extraction_message
     @ ''. Could you clarify? For example: '' @ apos
     @ ''I applied for a Software Engineer role at Google yesterday via LinkedIn'' @ apos"

definition recorded :: "string \<Rightarrow> string" where
  "recorded sheet_message =
     ''Great! I'' @ apos @ ''ve recorded your job application. '' @ sheet_message @ '' '' @ party
     @ nl @ nl @ ''Keep up the great work with your job search! '' @ biceps"

definition not_saved :: "string \<Rightarrow> string" where
  "not_saved sheet_message =
     ''I see you applied for a job! However, there was an issue saving it: '' @ sheet_message
     @ nl @ nl @ ''But don'' @ apos @ ''t worry, I'' @ apos
     @ ''ve still noted your application effort! '' @ thumbs_up"

definition usage_hint :: string where
  "usage_hint =
     ''Please specify the company name to remove, like: '' @ apos @ ''remove Google row'' @ apos"

definition application_branch :: "services \<Rightarrow> tracker \<Rightarrow> string \<Rightarrow> message list \<Rightarrow> message \<times> tracker" where
  \<comment> \<open>lines 394 to 416; the result is the message appended and the tracker afterwards\<close>
  "application_branch sv tr prompt msgs =
     (case extract_job_details tr sv prompt msgs of
        (jd, is_valid, extraction_message) \<Rightarrow>
          if is_valid
          then (case add_to_sheet tr jd of
                  ((success, sheet_message), tr') \<Rightarrow>
                    if success then (assistant_message (recorded sheet_message) (Some jd), tr')
                    else (assistant_message (not_saved sheet_message) None, tr'))
          else (assistant_message (clarification extraction_message) None, tr))"

definition remove_branch :: "tracker \<Rightarrow> string \<Rightarrow> message \<times> tracker" where
  \<comment> \<open>lines 418 to 429\<close>
  "remove_branch tr prompt =
     (case remove_search prompt of
        Some group1 \<Rightarrow>
          (case remove_from_sheet tr (strip group1) of
             ((success, msg), tr') \<Rightarrow> (assistant_message msg None, tr'))
      | None \<Rightarrow> (assistant_message usage_hint None, tr))"

definition last_message :: "message list \<Rightarrow> string + message" where
  \<comment> \<open>\<^verbatim>\<open>st.session_state.messages[-1]\<close>, an \<^verbatim>\<open>IndexError\<close> on the empty list\<close>
  "last_message msgs = (if msgs = [] then Inl ''list index out of range'' else Inr (last msgs))"

definition turn :: "services \<Rightarrow> session \<Rightarrow> string \<Rightarrow> string + session" where
  \<comment> \<open>the body of \<^verbatim>\<open>if prompt := st.chat_input(...)\<close>, lines 383 to 453, without the
     rendering; \<open>Inl e\<close> is an exception that leaves the script\<close>
  "turn sv st prompt =
     (let msgs = messages st @ [user_message prompt];
          tr = job_tracker st;
          message_type = is_job_application prompt;
          (reply, tr') =
            (if message_type = Some ''application'' then application_branch sv tr prompt msgs
             else if message_type = Some ''remove'' then remove_branch tr prompt
             else (assistant_message (get_ai_response tr sv prompt msgs) None, tr));
          msgs' = msgs @ [reply]
      in bind_exn (last_message msgs')
           (\<lambda>shown. Inr (st\<lparr>messages := msgs', job_tracker := tr'\<rparr>)))"

section \<open>Reading the claims\<close>

text \<open>
  Notions that the claims use and the program has no name for: a field of the parsed
  object that is a string or is missing, and the text of such a field; the Company Name
  and Role cells of a data row as the client returns them, and whether such a cell is a
  text; a data row whose company is a given name; a data row that has the key of a record
  (company and role with case ignored, date exact); the row numbers that a removal
  collects; a text in which white space is directly followed by the word row; and the
  table after a run of row deletions none of which raises.
\<close>

definition text_or_absent :: "(string \<times> json) list \<Rightarrow> string \<Rightarrow> bool" where
  "text_or_absent obj key =
     (case map_of obj key of None \<Rightarrow> True | Some (JStr s) \<Rightarrow> True | Some v \<Rightarrow> False)"

definition field_text :: "(string \<times> json) list \<Rightarrow> string \<Rightarrow> string \<Rightarrow> string" where
  "field_text obj key dflt = (case map_of obj key of Some (JStr s) \<Rightarrow> s | _ \<Rightarrow> dflt)"








fun space_then_row :: "string \<Rightarrow> bool" where
  \<comment> \<open>somewhere in the text a white-space character is directly followed by the letters
     of \<open>row\<close>, in any case\<close>
  "space_then_row [] = False"
| "space_then_row (c # cs) = ((is_space c \<and> lit_ci ''row'' cs \<noteq> None) \<or> space_then_row cs)"


section \<open>Example values\<close>

definition no_faults :: "nat \<Rightarrow> string option" where
  "no_faults n = None"

definition tracker_on :: "worksheet \<Rightarrow> tracker" where
  "tracker_on ws = \<lparr>gemini_configured = True, sheets_configured = True, sheet = Some ws\<rparr>"

definition google_details :: details where
  "google_details =
     \<lparr>Company_Name = ''Google'', Role = ''Software Engineer'', Date = ''2025-05-22'',
      Platform = ''Linkedin'', Accept = ''Pending''\<rparr>"

definition ws_no_accept :: worksheet where
  "ws_no_accept =
     \<lparr>cells = [[''Company Name'', ''Role'', ''Date'', ''Platform'']], log = [],
      faults = no_faults, numericise = python_numericise\<rparr>"

text \<open>
  Four JSON texts and the values \<^verbatim>\<open>json.loads\<close> returns for them; \<open>table_loads\<close> is a
  parser that knows these four texts and rejects every other one.
\<close>

definition quoted :: "string \<Rightarrow> string" where
  "quoted s = dq @ s @ dq"

definition block_google :: string where
  "block_google =
     ''{'' @ quoted ''Company Name'' @ '': '' @ quoted ''google'' @ '', ''
     @ quoted ''Role'' @ '': '' @ quoted ''software engineer'' @ '', ''
     @ quoted ''Date'' @ '': '' @ quoted ''2025-05-22'' @ '', ''
     @ quoted ''Platform'' @ '': '' @ quoted ''linkedin'' @ '', ''
     @ quoted ''Status'' @ '': '' @ quoted ''Pending'' @ ''}''"

definition parsed_google :: json where
  "parsed_google =
     JObj [(''Company Name'', JStr ''google''), (''Role'', JStr ''software engineer''),
           (''Date'', JStr ''2025-05-22''), (''Platform'', JStr ''linkedin''),
           (''Status'', JStr ''Pending'')]"

definition block_null_platform :: string where
  "block_null_platform =
     ''{'' @ quoted ''Company Name'' @ '': '' @ quoted ''google'' @ '', ''
     @ quoted ''Role'' @ '': '' @ quoted ''software engineer'' @ '', ''
     @ quoted ''Platform'' @ '': null}''"

definition parsed_null_platform :: json where
  "parsed_null_platform =
     JObj [(''Company Name'', JStr ''google''), (''Role'', JStr ''software engineer''),
           (''Platform'', JNull)]"

definition block_empty_date :: string where
  "block_empty_date =
     ''{'' @ quoted ''Company Name'' @ '': '' @ quoted ''google'' @ '', ''
     @ quoted ''Role'' @ '': '' @ quoted ''software engineer'' @ '', ''
     @ quoted ''Date'' @ '': '' @ quoted [] @ ''}''"

definition parsed_empty_date :: json where
  "parsed_empty_date =
     JObj [(''Company Name'', JStr ''google''), (''Role'', JStr ''software engineer''),
           (''Date'', JStr [])]"

definition block_no_date :: string where
  "block_no_date =
     ''{'' @ quoted ''Company Name'' @ '': '' @ quoted ''google'' @ '', ''
     @ quoted ''Role'' @ '': '' @ quoted ''software engineer'' @ ''}''"

definition parsed_no_date :: json where
  "parsed_no_date =
     JObj [(''Company Name'', JStr ''google''), (''Role'', JStr ''software engineer'')]"

definition table_loads :: "string \<Rightarrow> json option" where
  "table_loads s =
     (if s = block_google then Some parsed_google
      else if s = block_null_platform then Some parsed_null_platform
      else if s = block_empty_date then Some parsed_empty_date
      else if s = block_no_date then Some parsed_no_date
      else None)"

definition model_says :: "string \<Rightarrow> services" where
  \<comment> \<open>a model that answers every prompt with the same text, on 23 May 2025\<close>
  "model_says response =
     \<lparr>generate_content = (\<lambda>prompt. Inr response), json_loads = table_loads,
      today_prompt = ''2025-05-23'', today_parse = ''2025-05-23''\<rparr>"

definition fenced :: "string \<Rightarrow> string" where
  "fenced body = ''Here you go:'' @ nl @ fence_open @ body @ fence_close @ nl"

definition sample_text :: string where
  "sample_text = ''I applied for Software Engineer at Google yesterday via LinkedIn''"

definition tracker_without_sheet :: tracker where
  "tracker_without_sheet = \<lparr>gemini_configured = True, sheets_configured = False, sheet = None\<rparr>"

definition ws_header_only :: worksheet where
  "ws_header_only =
     \<lparr>cells = [expected_headers], log = [], faults = no_faults,
      numericise = python_numericise\<rparr>"

definition fresh_session :: "tracker \<Rightarrow> session" where
  "fresh_session tr = \<lparr>messages = [], job_tracker = tr\<rparr>"






section \<open>Evaluation rules\<close>

lemma char_eq_char_of: "c = char_of (n::nat) \<longleftrightarrow> take_bit 8 n = of_char c"
  using char_of_eq_iff [of n c] by auto

lemmas text_eval = lower_def lower_chr_def upper_chr_def is_upper_def is_lower_def is_space_def
  char_of_eq_iff char_eq_char_of strip_def title_def nl_def

section \<open>The classifier\<close>

lemma contains_lower_iff:
  "contains k (lower text) \<longleftrightarrow> (\<exists>u v w. text = u @ v @ w \<and> lower v = k)"
proof
  assume "contains k (lower text)"
  then have "\<exists>v. sublist v text \<and> k = map lower_chr v"
    unfolding contains_def lower_def by (rule sublist_map_rightE)
  then show "\<exists>u v w. text = u @ v @ w \<and> lower v = k"
    by (auto simp: sublist_def lower_def)
next
  assume "\<exists>u v w. text = u @ v @ w \<and> lower v = k"
  then show "contains k (lower text)"
    by (auto simp: contains_def lower_def)
qed

text \<open>
  Claim C4. A text that the removal pattern does not match is classified as an application
  (\<open>Some ''application''\<close>) exactly when one of the ten keywords occurs in it with the
  case of the letters ignored, that is, when some piece \<open>v\<close> of the text has the keyword
  as its lower case; otherwise it is conversation (\<open>None\<close>).
\<close>

theorem classifier_keywords:
  assumes "remove_search text = None"
  shows "is_job_application text =
           (if \<exists>k \<in> set job_keywords. \<exists>u v w. text = u @ v @ w \<and> lower v = k
            then Some ''application'' else None)"
  using assms by (simp add: is_job_application_def list_ex_iff contains_lower_iff)

theorem classifier_keywords_witness:
  "is_job_application ''I APPLIED'' = Some ''application''
   \<and> is_job_application ''hello'' = None"
proof -
  have a: "remove_search ''I APPLIED'' = None"
    by (simp add: remove_match_here_def text_eval)
  have b: "remove_search ''hello'' = None"
    by (simp add: remove_match_here_def text_eval)
  have c: "''I APPLIED'' = ''I '' @ ''APPLIED'' @ [] \<and> lower ''APPLIED'' = ''applied''"
    by (simp add: text_eval)
  have d: "\<not> (\<exists>k \<in> set job_keywords. contains k (lower ''hello''))"
    by (simp add: job_keywords_def contains_def sublist_Cons_right text_eval)
  have "\<exists>k \<in> set job_keywords. \<exists>u v w. ''I APPLIED'' = u @ v @ w \<and> lower v = k"
    using c unfolding job_keywords_def by (metis list.set_intros(1))
  then show ?thesis
    using classifier_keywords [OF a] classifier_keywords [OF b] d
    by (simp add: contains_lower_iff)
qed

section \<open>The header check of the add path\<close>

text \<open>
  Claim C9. On a configured tracker whose read of the header row succeeds, when the header
  row lacks one of the five expected column names (as a member of the row, whatever its
  position), \<open>add_to_sheet\<close> fails with the invalid-structure message, and the only call
  it has made is that read: no row is appended.
\<close>

theorem add_rejects_bad_header:
  assumes "sheets_configured tr" and "sheet tr = Some ws"
    and "faults ws (length (log ws)) = None"
    and "\<not> set expected_headers \<subseteq> set (header ws)"
  shows "add_to_sheet tr d =
           ((False, ''Invalid sheet structure. Ensure columns are: Company Name, Role, Date, Platform, Accept''),
            tr\<lparr>sheet := Some (ws\<lparr>log := log ws @ [RowValues 1]\<rparr>)\<rparr>)"
proof -
  have rv: "row_values ws = (Inr (header ws), ws\<lparr>log := log ws @ [RowValues 1]\<rparr>)"
    using assms(3) by (simp add: row_values_def api_def header_def)
  have "\<not> list_all (\<lambda>h. h \<in> set (header ws)) expected_headers"
    using assms(4) by (auto simp: list_all_iff)
  then have "add_try d ws =
     (Inr (False, ''Invalid sheet structure. Ensure columns are: Company Name, Role, Date, Platform, Accept''),
      ws\<lparr>log := log ws @ [RowValues 1]\<rparr>)"
    by (simp add: add_try_def rv)
  then show ?thesis
    using assms(1,2) by (simp add: add_to_sheet_def)
qed

theorem add_rejects_bad_header_witness:
  "add_to_sheet (tracker_on ws_no_accept) google_details =
     ((False, ''Invalid sheet structure. Ensure columns are: Company Name, Role, Date, Platform, Accept''),
      tracker_on (ws_no_accept\<lparr>log := [RowValues 1]\<rparr>))"
  using add_rejects_bad_header [of "tracker_on ws_no_accept" ws_no_accept google_details]
  by (simp add: tracker_on_def ws_no_accept_def no_faults_def header_def expected_headers_def)

section \<open>The turn loop\<close>

lemma role_application_branch: "role (fst (application_branch sv tr prompt msgs)) = ''assistant''"
  by (simp add: application_branch_def assistant_message_def split: prod.splits)

lemma role_remove_branch: "role (fst (remove_branch tr prompt)) = ''assistant''"
  by (simp add: remove_branch_def assistant_message_def split: prod.splits option.splits)

text \<open>
  Claim C8. Whatever the user writes, whatever the tracker's configuration and worksheet
  are, and whatever the model, the parser and the spreadsheet calls return or raise, a turn
  ends without an exception and leaves the history extended by the user's message and
  exactly one message of the assistant.
\<close>

theorem turn_appends_one_reply:
  "\<exists>reply st'. turn sv st prompt = Inr st'
      \<and> messages st' = messages st @ [user_message prompt, reply]
      \<and> role reply = ''assistant''"
proof -
  define msgs where "msgs = messages st @ [user_message prompt]"
  define res where "res =
     (if is_job_application prompt = Some ''application''
      then application_branch sv (job_tracker st) prompt msgs
      else if is_job_application prompt = Some ''remove'' then remove_branch (job_tracker st) prompt
      else (assistant_message (get_ai_response (job_tracker st) sv prompt msgs) None, job_tracker st))"
  have r: "role (fst res) = ''assistant''"
    by (simp add: res_def role_application_branch role_remove_branch assistant_message_def)
  have "turn sv st prompt = Inr (st\<lparr>messages := msgs @ [fst res], job_tracker := snd res\<rparr>)"
    by (simp add: turn_def Let_def msgs_def res_def last_message_def bind_exn_def split: prod.splits)
  with r show ?thesis
    by (simp add: msgs_def)
qed

section \<open>The fenced block of the response\<close>

lemma strip_sandwich: "\<exists>a b. s = a @ strip s @ b"
proof -
  let ?t = "dropWhile is_space s"
  have "?t = rev (dropWhile is_space (rev ?t)) @ rev (takeWhile is_space (rev ?t))"
    by (metis rev_append rev_rev_ident takeWhile_dropWhile_id)
  then have "?t = strip s @ rev (takeWhile is_space (rev ?t))"
    by (simp only: strip_def)
  moreover have "s = takeWhile is_space s @ ?t"
    by simp
  ultimately show ?thesis
    by metis
qed

lemma split_at_first_Some:
  "split_at_first p s = Some (a, b) \<Longrightarrow> s = a @ p @ b"
proof (induction s arbitrary: a)
  case Nil
  then show ?case by (simp split: if_splits)
next
  case (Cons c cs)
  show ?case
  proof (cases "prefix p (c # cs)")
    case True
    with Cons.prems have "a = []" "b = drop (length p) (c # cs)"
      by auto
    moreover from True obtain r where "c # cs = p @ r"
      by (auto simp: prefix_def)
    ultimately show ?thesis
      by simp
  next
    case False
    with Cons.prems obtain a' where "split_at_first p cs = Some (a', b)" "a = c # a'"
      by auto
    with Cons.IH show ?thesis
      by simp
  qed
qed

lemma split_at_first_leftmost:
  "\<exists>a b. split_at_first p (u @ p @ v) = Some (a, b) \<and> length a \<le> length u"
proof (induction u)
  case Nil
  show ?case
  proof (cases "p @ v")
    case Nil
    then show ?thesis by simp
  next
    case (Cons c cs)
    have "prefix p (p @ v)" by simp
    with Cons show ?thesis by simp
  qed
next
  case (Cons x u)
  then obtain a b where ab: "split_at_first p (u @ p @ v) = Some (a, b)" "length a \<le> length u"
    by blast
  show ?case
  proof (cases "prefix p (x # u @ p @ v)")
    case True
    then show ?thesis by simp
  next
    case False
    with ab show ?thesis by simp
  qed
qed

lemma json_search_Some:
  assumes "json_search s = Some g"
  shows "\<exists>a c. s = a @ fence_open @ g @ fence_close @ c"
proof -
  from assms obtain a rest c where
    "split_at_first fence_open s = Some (a, rest)" "split_at_first fence_close rest = Some (g, c)"
    by (auto simp: json_search_def split: option.splits)
  then have "s = a @ fence_open @ rest" "rest = g @ fence_close @ c"
    by (auto dest: split_at_first_Some)
  then show ?thesis
    by blast
qed

lemma json_search_complete:
  assumes "s = a0 @ fence_open @ b0 @ fence_close @ c0"
  shows "json_search s \<noteq> None"
proof -
  obtain a rest where ar: "split_at_first fence_open s = Some (a, rest)" "length a \<le> length a0"
    using split_at_first_leftmost [of fence_open a0 "b0 @ fence_close @ c0"] assms by auto
  then have s: "s = a @ fence_open @ rest"
    by (auto dest: split_at_first_Some)
  let ?k = "length a + length fence_open"
  have "rest = drop ?k s"
    by (subst s) simp
  also have "\<dots> = drop ?k (a0 @ fence_open) @ b0 @ fence_close @ c0"
    using ar(2) by (simp add: assms)
  finally have "rest = (drop ?k (a0 @ fence_open) @ b0) @ fence_close @ c0"
    by simp
  then obtain g c where "split_at_first fence_close rest = Some (g, c)"
    using split_at_first_leftmost [of fence_close "drop ?k (a0 @ fence_open) @ b0" c0] by auto
  with ar(1) show ?thesis
    by (simp add: json_search_def)
qed

lemma json_search_None_iff:
  "json_search s = None \<longleftrightarrow> \<not> (\<exists>a b c. s = a @ fence_open @ b @ fence_close @ c)"
  using json_search_Some json_search_complete by (metis not_Some_eq)

section \<open>Extraction\<close>

lemma extract_of_response:
  assumes "gemini_configured tr"
    and "generate_content sv (extraction_prompt (today_prompt sv) text history) = Inr response"
  shows "extract_job_details tr sv text history =
     (case json_search (strip response) of
        None \<Rightarrow> (empty_details, False, ''No valid job application details found'')
      | Some g \<Rightarrow>
          (case json_loads sv g of
             None \<Rightarrow> (empty_details, False, ''Failed to parse Gemini AI response'')
           | Some j \<Rightarrow>
               (case read_details (today_parse sv) j of
                  Inl e \<Rightarrow> (empty_details, False, ''Error extracting details with Gemini AI: '' @ e)
                | Inr r \<Rightarrow> r)))"
  using assms
  by (simp add: extract_job_details_def extract_try_def bind_exn_def Let_def
           split: option.splits sum.splits)

text \<open>
  Claim C6. With the model configured and answering, a response that nowhere holds the
  opening fence, some text and the closing fence yields the empty record, the flag false
  and the message that no valid details were found; and when the block that the search
  returns is rejected by the JSON parser, the result is the empty record, the flag false and
  the message that the response could not be parsed.
\<close>

theorem extract_without_block:
  assumes "gemini_configured tr"
    and "generate_content sv (extraction_prompt (today_prompt sv) text history) = Inr response"
  shows "(\<not> (\<exists>a b c. response = a @ fence_open @ b @ fence_close @ c) \<longrightarrow>
            extract_job_details tr sv text history =
              (empty_details, False, ''No valid job application details found''))
       \<and> (\<forall>g. json_search (strip response) = Some g \<and> json_loads sv g = None \<longrightarrow>
            extract_job_details tr sv text history =
              (empty_details, False, ''Failed to parse Gemini AI response''))"
proof (intro conjI impI allI)
  assume no: "\<not> (\<exists>a b c. response = a @ fence_open @ b @ fence_close @ c)"
  obtain l r where lr: "response = l @ strip response @ r"
    using strip_sandwich by blast
  have "json_search (strip response) = None"
  proof (rule ccontr)
    assume "json_search (strip response) \<noteq> None"
    then obtain g where "json_search (strip response) = Some g"
      by blast
    then obtain a c where "strip response = a @ fence_open @ g @ fence_close @ c"
      using json_search_Some by blast
    with lr have "response = (l @ a) @ fence_open @ g @ fence_close @ (c @ r)"
      by simp
    with no show False
      by blast
  qed
  then show "extract_job_details tr sv text history =
      (empty_details, False, ''No valid job application details found'')"
    by (simp add: extract_of_response [OF assms])
next
  fix g
  assume "json_search (strip response) = Some g \<and> json_loads sv g = None"
  then show "extract_job_details tr sv text history =
      (empty_details, False, ''Failed to parse Gemini AI response'')"
    by (simp add: extract_of_response [OF assms])
qed

lemmas fence_eval = fence_open_def fence_close_def json_search_def fenced_def

theorem extract_without_block_witness:
  "extract_job_details (tracker_on ws_no_accept) (model_says ''Sorry, no details.'') sample_text [] =
     (empty_details, False, ''No valid job application details found'')
   \<and> extract_job_details (tracker_on ws_no_accept) (model_says (fenced ''{oops'')) sample_text [] =
     (empty_details, False, ''Failed to parse Gemini AI response'')"
proof -
  have none: "json_search ''Sorry, no details.'' = None"
    by (simp add: fence_eval nl_def)
  have a: "\<not> (\<exists>a b c. ''Sorry, no details.'' = a @ fence_open @ b @ fence_close @ c)"
    using none json_search_None_iff by blast
  have b: "json_search (strip (fenced ''{oops'')) = Some ''{oops''"
    by (simp add: fence_eval text_eval)
  have c: "json_loads (model_says (fenced ''{oops'')) ''{oops'' = None"
    by (simp add: model_says_def table_loads_def block_google_def block_null_platform_def
        block_empty_date_def block_no_date_def)
  show ?thesis
    using extract_without_block [of "tracker_on ws_no_accept" "model_says ''Sorry, no details.''"
        sample_text "[]" "''Sorry, no details.''"]
      extract_without_block [of "tracker_on ws_no_accept" "model_says (fenced ''{oops'')"
        sample_text "[]" "fenced ''{oops''"]
      a b c
    by (simp add: tracker_on_def model_says_def)
qed

lemma get_stripped_text:
  "text_or_absent obj key \<Longrightarrow> get_stripped obj key dflt = Inr (strip (field_text obj key dflt))"
  by (auto simp: text_or_absent_def get_stripped_def field_text_def split: option.splits json.splits)

lemma read_details_text:
  assumes "text_or_absent obj ''Company Name''" and "text_or_absent obj ''Role''"
    and "text_or_absent obj ''Date''" and "text_or_absent obj ''Platform''"
    and "text_or_absent obj ''Status''"
  shows "read_details today (JObj obj) =
     Inr (\<lparr>Company_Name = title (strip (field_text obj ''Company Name'' [])),
           Role = title (strip (field_text obj ''Role'' [])),
           Date = strip (field_text obj ''Date'' today),
           Platform = title (strip (field_text obj ''Platform'' [])),
           Accept = strip (field_text obj ''Status'' ''Pending'')\<rparr>,
          title (strip (field_text obj ''Company Name'' [])) \<noteq> []
            \<and> title (strip (field_text obj ''Role'' [])) \<noteq> [],
          ''Successfully extracted details'')"
  by (simp add: read_details_def bind_exn_def Let_def get_stripped_text [OF assms(1)]
      get_stripped_text [OF assms(2)] get_stripped_text [OF assms(3)]
      get_stripped_text [OF assms(4)] get_stripped_text [OF assms(5)])

text \<open>
  Claim C5, amended. With the model configured and answering, when the block that the
  search returns parses to a JSON object in which each of the five entries Company Name,
  Role, Date, Platform and Status is a string or is missing, extraction returns the company,
  the role and the platform trimmed and title-cased, the date and the status trimmed only
  (a missing date is the current date, a missing status is Pending), the flag true exactly
  when company and role are both non-empty, and the message of success. The theorem after
  it is the specification's example; the one after that is a well-formed block with a null
  platform, where the record comes back empty.
\<close>

theorem extract_title_cases:
  assumes "gemini_configured tr"
    and "generate_content sv (extraction_prompt (today_prompt sv) text history) = Inr response"
    and "json_search (strip response) = Some g"
    and "json_loads sv g = Some (JObj obj)"
    and "text_or_absent obj ''Company Name''" and "text_or_absent obj ''Role''"
    and "text_or_absent obj ''Date''" and "text_or_absent obj ''Platform''"
    and "text_or_absent obj ''Status''"
  shows "extract_job_details tr sv text history =
     (\<lparr>Company_Name = title (strip (field_text obj ''Company Name'' [])),
       Role = title (strip (field_text obj ''Role'' [])),
       Date = strip (field_text obj ''Date'' (today_parse sv)),
       Platform = title (strip (field_text obj ''Platform'' [])),
       Accept = strip (field_text obj ''Status'' ''Pending'')\<rparr>,
      title (strip (field_text obj ''Company Name'' [])) \<noteq> []
        \<and> title (strip (field_text obj ''Role'' [])) \<noteq> [],
      ''Successfully extracted details'')"
  by (simp add: extract_of_response [OF assms(1,2)] assms(3,4)
      read_details_text [OF assms(5-9)])

lemmas block_eval = block_google_def block_null_platform_def block_empty_date_def
  block_no_date_def quoted_def dq_def table_loads_def

lemma search_fenced: "json_search (strip (fenced block_google)) = Some block_google"
  by (simp add: fence_eval text_eval block_eval)

theorem extract_title_cases_witness:
  "extract_job_details (tracker_on ws_no_accept) (model_says (fenced block_google)) sample_text [] =
     (\<lparr>Company_Name = ''Google'', Role = ''Software Engineer'', Date = ''2025-05-22'',
       Platform = ''Linkedin'', Accept = ''Pending''\<rparr>, True, ''Successfully extracted details'')"
proof -
  have a: "json_search (strip (fenced block_google)) = Some block_google"
    by (simp add: fence_eval text_eval block_eval)
  have b: "json_loads (model_says (fenced block_google)) block_google
             = Some (JObj [(''Company Name'', JStr ''google''), (''Role'', JStr ''software engineer''),
           (''Date'', JStr ''2025-05-22''), (''Platform'', JStr ''linkedin''),
           (''Status'', JStr ''Pending'')])"
    by (simp add: model_says_def table_loads_def parsed_google_def)
  show ?thesis
    using extract_title_cases [of "tracker_on ws_no_accept" "model_says (fenced block_google)"
        sample_text "[]" "fenced block_google", OF _ _ a b]
    by (simp add: tracker_on_def model_says_def text_or_absent_def field_text_def text_eval)
qed

theorem extract_null_field_counterexample:
  "extract_job_details (tracker_on ws_no_accept) (model_says (fenced block_null_platform)) sample_text [] =
     (empty_details, False,
      ''Error extracting details with Gemini AI: '' @ apos @ ''NoneType'' @ apos
        @ '' object has no attribute '' @ apos @ ''strip'' @ apos)
   \<and> json_loads (model_says (fenced block_null_platform)) block_null_platform
       = Some (JObj [(''Company Name'', JStr ''google''), (''Role'', JStr ''software engineer''),
                     (''Platform'', JNull)])
   \<and> Company_Name (fst (extract_job_details (tracker_on ws_no_accept)
         (model_says (fenced block_null_platform)) sample_text [])) \<noteq> title ''google''"
proof -
  have a: "json_search (strip (fenced block_null_platform)) = Some block_null_platform"
    by (simp add: fence_eval text_eval block_eval)
  have b: "table_loads block_null_platform = Some parsed_null_platform"
    by (simp add: block_eval)
  have c: "read_details ''2025-05-23'' parsed_null_platform = Inl (attribute_error JNull ''strip'')"
    by (simp add: read_details_def parsed_null_platform_def bind_exn_def get_stripped_def)
  have d: "extract_job_details (tracker_on ws_no_accept) (model_says (fenced block_null_platform)) sample_text [] =
     (empty_details, False, ''Error extracting details with Gemini AI: '' @ attribute_error JNull ''strip'')"
    by (simp add: extract_job_details_def extract_try_def bind_exn_def tracker_on_def
        model_says_def a b c)
  have e: "json_loads (model_says (fenced block_null_platform)) block_null_platform
       = Some (JObj [(''Company Name'', JStr ''google''), (''Role'', JStr ''software engineer''),
                     (''Platform'', JNull)])"
    by (simp add: model_says_def b parsed_null_platform_def)
  have f: "Company_Name (fst (extract_job_details (tracker_on ws_no_accept)
         (model_says (fenced block_null_platform)) sample_text [])) \<noteq> title ''google''"
    by (simp add: d empty_details_def title_def is_lower_def)
  from d e f show ?thesis
    by (simp add: attribute_error_def)
qed

text \<open>
  Claim C10. In the extraction of a block that parses to an object with string or missing
  entries, the date of the record is the current date (trimmed) only when the object has no
  Date entry; when the entry is there, the record has its trimmed text, so that an entry
  with the empty string leaves the date empty. The flag does not look at the date: it is
  true exactly when company and role are non-empty, so that a record is valid with an
  empty date.
\<close>

theorem date_default_needs_missing_key:
  assumes "gemini_configured tr"
    and "generate_content sv (extraction_prompt (today_prompt sv) text history) = Inr response"
    and "json_search (strip response) = Some g"
    and "json_loads sv g = Some (JObj obj)"
    and "text_or_absent obj ''Company Name''" and "text_or_absent obj ''Role''"
    and "text_or_absent obj ''Date''" and "text_or_absent obj ''Platform''"
    and "text_or_absent obj ''Status''"
  shows "Date (fst (extract_job_details tr sv text history)) =
           (case map_of obj ''Date'' of
              None \<Rightarrow> strip (today_parse sv)
            | Some v \<Rightarrow> strip (field_text obj ''Date'' []))
       \<and> (map_of obj ''Date'' = Some (JStr []) \<longrightarrow>
            Date (fst (extract_job_details tr sv text history)) = [])
       \<and> fst (snd (extract_job_details tr sv text history)) =
            (title (strip (field_text obj ''Company Name'' [])) \<noteq> []
              \<and> title (strip (field_text obj ''Role'' [])) \<noteq> [])"
proof -
  have d: "Date (fst (extract_job_details tr sv text history)) =
      strip (field_text obj ''Date'' (today_parse sv))"
    by (simp add: extract_of_response [OF assms(1,2)] assms(3,4)
      read_details_text [OF assms(5-9)])
  have v: "fst (snd (extract_job_details tr sv text history)) =
            (title (strip (field_text obj ''Company Name'' [])) \<noteq> []
              \<and> title (strip (field_text obj ''Role'' [])) \<noteq> [])"
    by (simp add: extract_of_response [OF assms(1,2)] assms(3,4)
      read_details_text [OF assms(5-9)])
  have "strip (field_text obj ''Date'' (today_parse sv)) =
           (case map_of obj ''Date'' of
              None \<Rightarrow> strip (today_parse sv)
            | Some v \<Rightarrow> strip (field_text obj ''Date'' []))"
    using assms(7)
    by (auto simp: field_text_def text_or_absent_def split: option.splits json.splits)
  moreover have "map_of obj ''Date'' = Some (JStr []) \<Longrightarrow> strip (field_text obj ''Date'' (today_parse sv)) = []"
    by (simp add: field_text_def strip_def)
  ultimately show ?thesis
    using d v by simp
qed

theorem date_default_needs_missing_key_witness:
  "Date (fst (extract_job_details (tracker_on ws_no_accept)
       (model_says (fenced block_empty_date)) sample_text [])) = []
   \<and> fst (snd (extract_job_details (tracker_on ws_no_accept)
       (model_says (fenced block_empty_date)) sample_text [])) = True
   \<and> Date (fst (extract_job_details (tracker_on ws_no_accept) (model_says (fenced block_no_date)) sample_text []))
       = ''2025-05-23''"
proof -
  have a: "json_search (strip (fenced block_empty_date)) = Some block_empty_date"
    by (simp add: fence_eval text_eval block_eval)
  have b: "json_loads (model_says (fenced block_empty_date)) block_empty_date
             = Some (JObj [(''Company Name'', JStr ''google''), (''Role'', JStr ''software engineer''),
           (''Date'', JStr [])])"
    by (simp add: model_says_def block_eval parsed_empty_date_def)
  have a': "json_search (strip (fenced block_no_date)) = Some block_no_date"
    by (simp add: fence_eval text_eval block_eval)
  have b': "json_loads (model_says (fenced block_no_date)) block_no_date
             = Some (JObj [(''Company Name'', JStr ''google''), (''Role'', JStr ''software engineer'')])"
    by (simp add: model_says_def block_eval parsed_no_date_def)
  have c: "Date (fst (extract_job_details (tracker_on ws_no_accept) (model_says (fenced block_empty_date)) sample_text [])) = []
    \<and> fst (snd (extract_job_details (tracker_on ws_no_accept) (model_says (fenced block_empty_date)) sample_text [])) = True"
    using date_default_needs_missing_key [of "tracker_on ws_no_accept" "model_says (fenced block_empty_date)"
        sample_text "[]" "fenced block_empty_date", OF _ _ a b]
    by (simp add: tracker_on_def model_says_def text_or_absent_def field_text_def text_eval)
  have c': "Date (fst (extract_job_details (tracker_on ws_no_accept) (model_says (fenced block_no_date)) sample_text []))
       = ''2025-05-23''"
    using date_default_needs_missing_key [of "tracker_on ws_no_accept" "model_says (fenced block_no_date)"
        sample_text "[]" "fenced block_no_date", OF _ _ a' b']
    by (simp add: tracker_on_def model_says_def text_or_absent_def field_text_def text_eval)
  from c c' show ?thesis by simp
qed

section \<open>The application branch\<close>

lemma clarification_example:
  "suffix (apos @ ''I applied for a Software Engineer role at Google yesterday via LinkedIn'' @ apos)
     (clarification m)"
  unfolding clarification_def suffix_def
  by (rule exI [of _ "''I couldn'' @ apos @ ''t extract enough details from your input: '' @ m
     @ ''. Could you clarify? For example: ''"]) simp

lemma turn_application:
  assumes "is_job_application prompt = Some ''application''"
  shows "turn sv st prompt =
     Inr (st\<lparr>messages := messages st @ [user_message prompt,
                   fst (application_branch sv (job_tracker st) prompt (messages st @ [user_message prompt]))],
             job_tracker := snd (application_branch sv (job_tracker st) prompt (messages st @ [user_message prompt]))\<rparr>)"
  using assms
  by (simp add: turn_def Let_def last_message_def bind_exn_def split: prod.splits)

text \<open>
  Claim C7, amended. In a turn classified as an application, the reply carries the record
  exactly when extraction is valid and the add succeeded. After a valid extraction and a
  failed add the reply is the message that acknowledges the effort and reports the problem,
  without a record; after an invalid extraction the reply is the request for clarification,
  which ends with the example sentence, without a record.
\<close>

theorem record_attached_when_added:
  assumes "is_job_application prompt = Some ''application''"
    and "extract_job_details (job_tracker st) sv prompt (messages st @ [user_message prompt])
           = (jd, is_valid, extraction_message)"
    and "add_to_sheet (job_tracker st) jd = ((success, sheet_message), tr')"
  shows "\<exists>reply st'. turn sv st prompt = Inr st'
           \<and> messages st' = messages st @ [user_message prompt, reply]
           \<and> job_details reply = (if is_valid \<and> success then Some jd else None)
           \<and> (is_valid \<and> \<not> success \<longrightarrow> content reply = not_saved sheet_message)
           \<and> (\<not> is_valid \<longrightarrow> content reply = clarification extraction_message
                  \<and> suffix (apos @ ''I applied for a Software Engineer role at Google yesterday via LinkedIn'' @ apos)
                       (content reply))"
proof -
  let ?b = "application_branch sv (job_tracker st) prompt (messages st @ [user_message prompt])"
  have a: "job_details (fst ?b) = (if is_valid \<and> success then Some jd else None)"
    by (simp add: application_branch_def assms(2,3) assistant_message_def)
  have b: "is_valid \<and> \<not> success \<longrightarrow> content (fst ?b) = not_saved sheet_message"
    by (simp add: application_branch_def assms(2,3) assistant_message_def)
  have c: "\<not> is_valid \<longrightarrow> content (fst ?b) = clarification extraction_message"
    by (simp add: application_branch_def assms(2,3) assistant_message_def)
  have t: "turn sv st prompt = Inr (st\<lparr>messages := messages st @ [user_message prompt, fst ?b],
             job_tracker := snd ?b\<rparr>)"
    by (rule turn_application [OF assms(1)])
  show ?thesis
  proof (intro exI conjI)
    show "turn sv st prompt = Inr (st\<lparr>messages := messages st @ [user_message prompt, fst ?b],
             job_tracker := snd ?b\<rparr>)"
      by (rule t)
    show "messages (st\<lparr>messages := messages st @ [user_message prompt, fst ?b],
             job_tracker := snd ?b\<rparr>) = messages st @ [user_message prompt, fst ?b]"
      by simp
    show "job_details (fst ?b) = (if is_valid \<and> success then Some jd else None)"
      by (rule a)
    show "is_valid \<and> \<not> success \<longrightarrow> content (fst ?b) = not_saved sheet_message"
      by (rule b)
    show "\<not> is_valid \<longrightarrow> content (fst ?b) = clarification extraction_message
                  \<and> suffix (apos @ ''I applied for a Software Engineer role at Google yesterday via LinkedIn'' @ apos)
                       (content (fst ?b))"
      using c clarification_example [of extraction_message] by auto
  qed
qed

lemma sample_is_application: "is_job_application sample_text = Some ''application''"
proof -
  have "remove_search sample_text = None"
    by (simp add: sample_text_def remove_match_here_def text_eval)
  moreover have "contains ''applied'' (lower sample_text)"
    by (simp add: sample_text_def contains_def sublist_Cons_right text_eval)
  ultimately show ?thesis
    by (simp add: is_job_application_def job_keywords_def)
qed

lemma extract_google:
  assumes "gemini_configured tr"
  shows "extract_job_details tr (model_says (fenced block_google)) sample_text h =
     (google_details, True, ''Successfully extracted details'')"
proof -
  have g: "generate_content (model_says (fenced block_google))
       (extraction_prompt (today_prompt (model_says (fenced block_google))) sample_text h)
       = Inr (fenced block_google)"
    by (simp add: model_says_def)
  have l: "json_loads (model_says (fenced block_google)) block_google = Some parsed_google"
    by (simp add: model_says_def table_loads_def)
  have r: "read_details today parsed_google = Inr (google_details, True, ''Successfully extracted details'')"
    for today
    by (simp add: read_details_def parsed_google_def bind_exn_def get_stripped_def
        google_details_def text_eval)
  show ?thesis
    by (simp add: extract_of_response [OF assms g] search_fenced l r)
qed

lemma add_google_unconfigured:
  "add_to_sheet tracker_without_sheet d = ((False, not_configured), tracker_without_sheet)"
  by (simp add: add_to_sheet_def tracker_without_sheet_def)


lemmas sheet_eval = add_to_sheet_def add_try_def row_values_def get_all_records_def append_row_def
  api_def header_def data_rows_def expected_headers_def no_faults_def record_of_def row_data_def
  is_duplicate_def get_or_def lower_of_def bind_exn_def

lemma add_google_first:
  "add_to_sheet (tracker_on ws_header_only) google_details =
     ((True, ''Successfully added to your job tracker!''),
      tracker_on \<lparr>cells = [expected_headers, row_data google_details],
                  log = [RowValues 1, GetAllRecords, AppendRow (row_data google_details)],
                  faults = no_faults, numericise = python_numericise\<rparr>)"
  by (simp add: tracker_on_def ws_header_only_def sheet_eval)

theorem record_attached_when_added_witness:
  "(\<exists>st'. turn (model_says (fenced block_google)) (fresh_session (tracker_on ws_header_only)) sample_text = Inr st'
      \<and> job_details (last (messages st')) = Some google_details)
   \<and> (\<exists>st'. turn (model_says ''Hello!'') (fresh_session (tracker_on ws_header_only)) sample_text = Inr st'
      \<and> job_details (last (messages st')) = None
      \<and> content (last (messages st')) = clarification ''No valid job application details found'')"
proof -
  have e: "extract_job_details (job_tracker (fresh_session (tracker_on ws_header_only)))
        (model_says (fenced block_google)) sample_text
        (messages (fresh_session (tracker_on ws_header_only)) @ [user_message sample_text])
      = (google_details, True, ''Successfully extracted details'')"
    by (rule extract_google) (simp add: fresh_session_def tracker_on_def)
  have a: "add_to_sheet (job_tracker (fresh_session (tracker_on ws_header_only))) google_details =
     ((True, ''Successfully added to your job tracker!''),
      tracker_on \<lparr>cells = [expected_headers, row_data google_details],
                  log = [RowValues 1, GetAllRecords, AppendRow (row_data google_details)],
                  faults = no_faults, numericise = python_numericise\<rparr>)"
    by (simp add: fresh_session_def add_google_first)
  have n: "json_search (strip ''Hello!'') = None"
    by (simp add: fence_eval text_eval)
  have e': "extract_job_details (job_tracker (fresh_session (tracker_on ws_header_only)))
        (model_says ''Hello!'') sample_text
        (messages (fresh_session (tracker_on ws_header_only)) @ [user_message sample_text])
      = (empty_details, False, ''No valid job application details found'')"
    by (simp add: extract_job_details_def extract_try_def bind_exn_def fresh_session_def
        tracker_on_def model_says_def n)
  obtain r tr' where a': "add_to_sheet (job_tracker (fresh_session (tracker_on ws_header_only))) empty_details
      = ((fst r, snd r), tr')"
    by (metis prod.collapse)
  have one: "\<exists>st'. turn (model_says (fenced block_google)) (fresh_session (tracker_on ws_header_only)) sample_text = Inr st'
      \<and> job_details (last (messages st')) = Some google_details"
    using record_attached_when_added [OF sample_is_application e a] by auto
  have two: "\<exists>st'. turn (model_says ''Hello!'') (fresh_session (tracker_on ws_header_only)) sample_text = Inr st'
      \<and> job_details (last (messages st')) = None
      \<and> content (last (messages st')) = clarification ''No valid job application details found''"
    using record_attached_when_added [OF sample_is_application e' a'] by auto
  from one two show ?thesis by (rule conjI)
qed

theorem record_not_attached_counterexample:
  "fst (snd (extract_job_details tracker_without_sheet (model_says (fenced block_google))
        sample_text [user_message sample_text])) = True
   \<and> turn (model_says (fenced block_google)) (fresh_session tracker_without_sheet) sample_text =
       Inr \<lparr>messages = [user_message sample_text, assistant_message (not_saved not_configured) None],
            job_tracker = tracker_without_sheet\<rparr>
   \<and> job_details (assistant_message (not_saved not_configured) None) = None"
proof -
  have e: "extract_job_details tracker_without_sheet (model_says (fenced block_google))
        sample_text [user_message sample_text] = (google_details, True, ''Successfully extracted details'')"
    by (rule extract_google) (simp add: tracker_without_sheet_def)
  have b: "application_branch (model_says (fenced block_google)) tracker_without_sheet sample_text
       [user_message sample_text] = (assistant_message (not_saved not_configured) None, tracker_without_sheet)"
    by (simp add: application_branch_def e add_google_unconfigured)
  have t: "turn (model_says (fenced block_google)) (fresh_session tracker_without_sheet) sample_text =
       Inr \<lparr>messages = [user_message sample_text, assistant_message (not_saved not_configured) None],
            job_tracker = tracker_without_sheet\<rparr>"
    by (simp add: turn_application [OF sample_is_application] fresh_session_def b)
  show ?thesis
    by (simp add: e t assistant_message_def)
qed

section \<open>The remove path\<close>


















section \<open>The add path\<close>








section \<open>The removal pattern\<close>

lemma lit_ci_append: "map lower_chr w = p \<Longrightarrow> lit_ci p (w @ rest) = Some rest"
  by (induction w arbitrary: p) auto

lemma lit_ci_Some: "lit_ci p s = Some r \<Longrightarrow> \<exists>w. s = w @ r \<and> map lower_chr w = p"
proof (induction p arbitrary: s)
  case Nil
  then show ?case by simp
next
  case (Cons a p)
  from Cons.prems obtain c cs where s: "s = c # cs"
    by (cases s) simp_all
  from Cons.prems have a: "lower_chr c = a" and rest: "lit_ci p cs = Some r"
    unfolding s by (simp_all split: if_splits)
  from Cons.IH [OF rest] obtain w where w: "cs = w @ r" "map lower_chr w = p"
    by (elim exE conjE)
  show ?case
    by (rule exI [of _ "c # w"]) (simp add: s w a)
qed

lemma spaces_greedy_complete:
  "S \<noteq> [] \<Longrightarrow> \<forall>c \<in> set S. is_space c \<Longrightarrow> k rest \<noteq> None \<Longrightarrow> spaces_greedy k (S @ rest) \<noteq> None"
proof (induction S)
  case Nil
  then show ?case by simp
next
  case (Cons c S)
  show ?case
  proof (cases "S = []")
    case True
    with Cons.prems show ?thesis
      by (auto split: option.splits)
  next
    case False
    with Cons have "spaces_greedy k (S @ rest) \<noteq> None"
      by simp
    with Cons.prems show ?thesis
      by (auto split: option.splits)
  qed
qed

lemma dot_lazy_complete:
  "x \<noteq> [] \<Longrightarrow> CHR 0x0A \<notin> set x \<Longrightarrow> k rest \<noteq> None \<Longrightarrow> dot_lazy k acc (x @ rest) \<noteq> None"
proof (induction x arbitrary: acc)
  case Nil
  then show ?case by simp
next
  case (Cons c x)
  show ?case
  proof (cases "x = []")
    case True
    with Cons.prems show ?thesis
      by (auto split: option.splits)
  next
    case False
    with Cons have "dot_lazy k (acc @ [c]) (x @ rest) \<noteq> None"
      by simp
    with Cons.prems show ?thesis
      by (auto split: option.splits)
  qed
qed

lemma remove_search_here: "remove_match_here s \<noteq> None \<Longrightarrow> remove_search s = remove_match_here s"
  by (cases s) auto

lemma remove_search_later:
  "remove_match_here s \<noteq> None \<Longrightarrow> remove_search (pre @ s) \<noteq> None"
proof (induction pre)
  case Nil
  then show ?case by (simp add: remove_search_here)
next
  case (Cons c pre)
  then show ?case by (auto split: option.splits)
qed

lemma spaces_greedy_exact:
  assumes "S \<noteq> []" and "\<forall>c \<in> set S. is_space c" and "k rest = Some r"
    and "spaces_greedy k rest = None"
  shows "spaces_greedy k (S @ rest) = Some r"
  using assms(1,2)
proof (induction S)
  case Nil
  then show ?case by simp
next
  case (Cons c S)
  show ?case
  proof (cases "S = []")
    case True
    with Cons.prems assms(3,4) show ?thesis
      by simp
  next
    case False
    with Cons have "spaces_greedy k (S @ rest) = Some r"
      by simp
    with Cons.prems show ?thesis
      by simp
  qed
qed

lemma spaces_greedy_Some:
  "spaces_greedy k s = Some r \<Longrightarrow>
     \<exists>S t. s = S @ t \<and> S \<noteq> [] \<and> (\<forall>c \<in> set S. is_space c) \<and> k t = Some r"
proof (induction s)
  case Nil
  then show ?case by simp
next
  case (Cons c s)
  from Cons.prems have sp: "is_space c"
    by (simp split: if_splits)
  show ?case
  proof (cases "spaces_greedy k s")
    case None
    with Cons.prems sp have "k s = Some r"
      by simp
    with sp show ?thesis
      by (intro exI [of _ "[c]"] exI [of _ s]) simp
  next
    case (Some r')
    with Cons.prems sp have "r' = r"
      by simp
    with Some Cons.IH obtain S t where
      st: "s = S @ t" "S \<noteq> []" "\<forall>c \<in> set S. is_space c" "k t = Some r"
      by blast
    show ?thesis
      by (rule exI [of _ "c # S"], rule exI [of _ t]) (simp add: st sp)
  qed
qed

lemma spaces_greedy_no_space:
  "s = [] \<or> \<not> is_space (hd s) \<Longrightarrow> spaces_greedy k s = None"
  by (cases s) auto

lemma dot_lazy_exact:
  assumes "k rest = Some r"
  shows "core \<noteq> [] \<Longrightarrow> CHR 0x0A \<notin> set core \<Longrightarrow>
     (\<And>u v. core = u @ v \<Longrightarrow> u \<noteq> [] \<Longrightarrow> v \<noteq> [] \<Longrightarrow> k (v @ rest) = None) \<Longrightarrow>
     dot_lazy k acc (core @ rest) = Some (acc @ core, r)"
proof (induction core arbitrary: acc)
  case Nil
  then show ?case by simp
next
  case (Cons c core)
  show ?case
  proof (cases "core = []")
    case True
    with Cons.prems(2) assms show ?thesis
      by simp
  next
    case False
    have "c # core = [c] @ core" by simp
    from Cons.prems(3) [OF this _ False] have none: "k (core @ rest) = None"
      by simp
    have later: "k (v @ rest) = None" if "core = u @ v" "u \<noteq> []" "v \<noteq> []" for u v
    proof -
      from that(1) have "c # core = (c # u) @ v" by simp
      from Cons.prems(3) [OF this _ that(3)] show ?thesis by simp
    qed
    from Cons.prems(2) have nl: "CHR 0x0A \<notin> set core" "c \<noteq> CHR 0x0A"
      by auto
    from Cons.IH [where acc = "acc @ [c]", OF False nl(1) later]
    have "dot_lazy k (acc @ [c]) (core @ rest) = Some (acc @ c # core, r)"
      by simp
    with none nl(2) show ?thesis
      by simp
  qed
qed

lemma space_is_lower: "is_space c \<Longrightarrow> lower_chr c = c"
  by (auto simp: is_space_def lower_chr_def is_upper_def Let_def)

lemma row_letters_no_space:
  assumes "map lower_chr w = ''row''"
  shows "\<forall>c \<in> set w. \<not> is_space c"
proof
  fix c assume c: "c \<in> set w"
  show "\<not> is_space c"
  proof
    assume sp: "is_space c"
    from c have "lower_chr c \<in> set (map lower_chr w)"
      by simp
    then have "c \<in> set ''row''"
      by (simp only: assms space_is_lower [OF sp])
    with sp show False
      by (auto simp: is_space_def)
  qed
qed

lemma remove_letters_head:
  assumes "map lower_chr w = ''remove''"
  shows "w \<noteq> [] \<and> lower_chr (hd w) = CHR ''r''"
  using assms by (cases w) auto

lemma remove_no_border:
  assumes "A @ B = ''remove''" and "A \<noteq> []" and "B \<noteq> []"
  shows "hd B \<noteq> CHR ''r''"
  using assms by (auto simp: append_eq_Cons_conv)

lemma strip_between_spaces:
  "\<exists>a b. s = a @ strip s @ b \<and> (\<forall>c \<in> set a. is_space c) \<and> (\<forall>c \<in> set b. is_space c)"
proof -
  let ?t = "dropWhile is_space s"
  let ?a = "takeWhile is_space s"
  let ?b = "rev (takeWhile is_space (rev ?t))"
  have "?t = rev (dropWhile is_space (rev ?t)) @ ?b"
    by (metis rev_append rev_rev_ident takeWhile_dropWhile_id)
  then have "?t = strip s @ ?b"
    by (simp only: strip_def)
  moreover have "s = ?a @ ?t"
    by simp
  ultimately have "s = ?a @ strip s @ ?b"
    by metis
  moreover have "\<forall>c \<in> set ?a. is_space c"
    by (auto dest: set_takeWhileD)
  moreover have "\<forall>c \<in> set ?b. is_space c"
    by (auto dest: set_takeWhileD)
  ultimately show ?thesis
    by blast
qed

lemma strip_ends:
  assumes "strip s \<noteq> []"
  shows "\<not> is_space (hd (strip s))" and "\<not> is_space (last (strip s))"
proof -
  let ?t = "dropWhile is_space s"
  let ?u = "dropWhile is_space (rev ?t)"
  from assms have u: "?u \<noteq> []"
    by (simp add: strip_def)
  have t: "?t \<noteq> []"
  proof
    assume "?t = []"
    then have "?u = []" by (simp only: rev.simps(1) dropWhile.simps(1))
    with u show False by (simp only: not_False_eq_True simp_thms)
  qed
  have "\<not> is_space (hd ?u)"
    using u by (rule hd_dropWhile)
  then show "\<not> is_space (last (strip s))"
    using u by (simp add: strip_def last_rev)
  have "rev ?t = takeWhile is_space (rev ?t) @ ?u"
    by simp
  with u have "last (rev ?t) = last ?u"
    by (metis last_appendR)
  then have "last ?u = hd ?t"
    using t by (simp add: last_rev)
  moreover have "\<not> is_space (hd ?t)"
    using t by (rule hd_dropWhile)
  ultimately show "\<not> is_space (hd (strip s))"
    using u by (simp add: strip_def hd_rev)
qed

lemma strip_strip: "strip (strip s) = strip s"
proof (cases "strip s = []")
  case True
  have "strip [] = []" by (simp add: strip_def)
  with True show ?thesis by simp
next
  case False
  let ?c = "strip s"
  from strip_ends [OF False] have h: "\<not> is_space (hd ?c)" and l: "\<not> is_space (last ?c)"
    by simp_all
  from False h have "dropWhile is_space ?c = ?c"
    by (cases ?c) simp_all
  moreover from False l have "dropWhile is_space (rev ?c) = rev ?c"
    by (cases "rev ?c") (simp_all add: hd_rev [symmetric])
  ultimately show ?thesis
    by (simp add: strip_def [of "strip s"])
qed

lemma word_inside:
  assumes "v @ y = S @ w @ r" and "v \<noteq> []" and "\<not> P (last v)" and "\<forall>c \<in> set S. P c"
    and "y \<noteq> []" and "P (hd y)" and "\<forall>c \<in> set w. \<not> P c"
  shows "\<exists>v'. v = S @ w @ v'"
proof -
  from assms(1) obtain us where
    "(v = S @ us \<and> us @ y = w @ r) \<or> (v @ us = S \<and> y = us @ w @ r)"
    by (auto simp: append_eq_append_conv2)
  then show ?thesis
  proof
    assume a: "v = S @ us \<and> us @ y = w @ r"
    then obtain ws where "(us = w @ ws \<and> ws @ y = r) \<or> (us @ ws = w \<and> y = ws @ r)"
      by (auto simp: append_eq_append_conv2)
    then show ?thesis
    proof
      assume "us = w @ ws \<and> ws @ y = r"
      with a show ?thesis by simp
    next
      assume b: "us @ ws = w \<and> y = ws @ r"
      show ?thesis
      proof (cases "ws = []")
        case True
        with a b show ?thesis by simp
      next
        case False
        with b have "hd y \<in> set w"
          by (cases ws) auto
        with assms(6,7) show ?thesis by blast
      qed
    qed
  next
    assume "v @ us = S \<and> y = us @ w @ r"
    with assms(2) have "last v \<in> set S"
      by auto
    with assms(3,4) show ?thesis by blast
  qed
qed

lemma no_earlier_remove:
  assumes "map lower_chr R = ''remove''" and "\<not> contains ''remove'' (lower (p1 @ p2))"
    and "p2 \<noteq> []"
  shows "lit_ci ''remove'' (p2 @ R @ rest) = None"
proof (rule ccontr)
  assume "lit_ci ''remove'' (p2 @ R @ rest) \<noteq> None"
  then obtain r' where "lit_ci ''remove'' (p2 @ R @ rest) = Some r'"
    by blast
  from lit_ci_Some [OF this] obtain w where
    w: "p2 @ R @ rest = w @ r'" "map lower_chr w = ''remove''"
    by (elim exE conjE)
  have inside: False if "p2 = w @ us" for us
  proof -
    have "sublist (map lower_chr w) (map lower_chr p1 @ map lower_chr w @ map lower_chr us)"
      by (rule sublist_appendI)
    with that w(2) assms(2) show False
      by (simp add: contains_def lower_def)
  qed
  from w(1) obtain us where
    "(p2 = w @ us \<and> us @ R @ rest = r') \<or> (p2 @ us = w \<and> R @ rest = us @ r')"
    by (auto simp: append_eq_append_conv2)
  then show False
  proof
    assume "p2 = w @ us \<and> us @ R @ rest = r'"
    then have "p2 = w @ us" ..
    then show False by (rule inside)
  next
    assume b: "p2 @ us = w \<and> R @ rest = us @ r'"
    show False
    proof (cases "us = []")
      case True
      with b have "p2 = w @ []" by simp
      then show False by (rule inside)
    next
      case False
      from remove_letters_head [OF assms(1)] have R: "R \<noteq> []" "lower_chr (hd R) = CHR ''r''"
        by simp_all
      from b False R(1) have "hd us = hd R"
        by (metis hd_append2)
      with R(2) False have "hd (map lower_chr us) = CHR ''r''"
        by (simp add: hd_map)
      moreover from b w(2) have "map lower_chr p2 @ map lower_chr us = ''remove''"
        by (metis map_append)
      then have "hd (map lower_chr us) \<noteq> CHR ''r''"
        using remove_no_border [of "map lower_chr p2" "map lower_chr us"] assms(3) False
        by simp
      ultimately show False by simp
    qed
  qed
qed

lemma remove_search_skip:
  "(\<And>u v. pre = u @ v \<Longrightarrow> v \<noteq> [] \<Longrightarrow> remove_match_here (v @ s) = None) \<Longrightarrow>
     remove_search (pre @ s) = remove_search s"
proof (induction pre)
  case Nil
  then show ?case by simp
next
  case (Cons c pre)
  have "c # pre = [] @ (c # pre)" by simp
  from Cons.prems [OF this] have here: "remove_match_here (c # pre @ s) = None"
    by simp
  have "remove_match_here (v @ s) = None" if "pre = u @ v" "v \<noteq> []" for u v
  proof -
    from that(1) have "c # pre = (c # u) @ v" by simp
    from Cons.prems [OF this that(2)] show ?thesis .
  qed
  from Cons.IH [OF this] here show ?case
    by simp
qed

lemma tail_matches:
  assumes "map lower_chr W = ''row''" and "S \<noteq> []" and "\<forall>c \<in> set S. is_space c"
  shows "spaces_greedy (lit_ci ''row'') (S @ W @ post) = Some post"
proof -
  from assms(1) have W: "W \<noteq> []"
    by auto
  with row_letters_no_space [OF assms(1)] have "\<not> is_space (hd (W @ post))"
    by simp
  then have "spaces_greedy (lit_ci ''row'') (W @ post) = None"
    by (intro spaces_greedy_no_space) simp
  moreover have "lit_ci ''row'' (W @ post) = Some post"
    using assms(1) by (rule lit_ci_append)
  ultimately show ?thesis
    using assms(2,3) by (intro spaces_greedy_exact)
qed

lemma tail_fails_inside:
  assumes "core = u @ v" and "v \<noteq> []" and "\<not> is_space (last core)"
    and "S \<noteq> []" and "\<forall>c \<in> set S. is_space c"
    and "\<not> (\<exists>c w. is_space c \<and> map lower_chr w = ''row'' \<and> sublist (c # w) core)"
  shows "spaces_greedy (lit_ci ''row'') (v @ S @ rest) = None"
proof (rule ccontr)
  assume "spaces_greedy (lit_ci ''row'') (v @ S @ rest) \<noteq> None"
  then obtain r where "spaces_greedy (lit_ci ''row'') (v @ S @ rest) = Some r"
    by (cases "spaces_greedy (lit_ci ''row'') (v @ S @ rest)") simp_all
  from spaces_greedy_Some [OF this] obtain T t where
    T: "v @ S @ rest = T @ t" "T \<noteq> []" "\<forall>c \<in> set T. is_space c" "lit_ci ''row'' t = Some r"
    by (elim exE conjE)
  from lit_ci_Some [OF T(4)] obtain w where w: "t = w @ r" "map lower_chr w = ''row''"
    by (elim exE conjE)
  have eq: "v @ (S @ rest) = T @ w @ r"
    using T(1) w(1) by simp
  have lv: "\<not> is_space (last v)"
    using assms(1,2,3) by simp
  have y: "S @ rest \<noteq> []" "is_space (hd (S @ rest))"
    using assms(4,5) by simp_all
  from word_inside [of v "S @ rest" T w r is_space, OF eq assms(2) lv T(3) y
      row_letters_no_space [OF w(2)]]
  obtain v' where v': "v = T @ w @ v'"
    by (elim exE)
  from T(2) have T': "T = butlast T @ [last T]"
    by simp
  have "core = (u @ butlast T) @ (last T # w) @ v'"
    using assms(1) v' T' by (metis append.assoc append_Cons append_Nil)
  then have sub: "sublist (last T # w) core"
    by (metis sublist_appendI)
  from T(2,3) have sp: "is_space (last T)"
    by simp
  from sp w(2) sub
  have "is_space (last T) \<and> map lower_chr w = ''row'' \<and> sublist (last T # w) core"
    by (intro conjI)
  then have "\<exists>c w. is_space c \<and> map lower_chr w = ''row'' \<and> sublist (c # w) core"
    by (intro exI)
  with assms(6) show False ..
qed

lemma capture_at_request:
  assumes "map lower_chr R = ''remove''" and "map lower_chr W = ''row''"
    and "core \<noteq> []" and "\<not> is_space (hd core)" and "\<not> is_space (last core)"
    and "CHR 0x0A \<notin> set core"
    and "\<forall>c \<in> set a. is_space c" and "\<forall>c \<in> set b. is_space c"
    and "\<not> (\<exists>c w. is_space c \<and> map lower_chr w = ''row'' \<and> sublist (c # w) core)"
  shows "remove_match_here (R @ '' '' @ a @ core @ b @ '' '' @ W @ post) = Some core"
proof -
  let ?k2 = "\<lambda>r3. spaces_greedy (lit_ci ''row'') r3"
  let ?k1 = "\<lambda>r2. dot_lazy ?k2 [] r2"
  let ?S2 = "b @ '' ''"
  let ?rest2 = "?S2 @ W @ post"
  have S2: "?S2 \<noteq> []" "\<forall>c \<in> set ?S2. is_space c"
    using assms(8) by (simp_all add: is_space_def)
  have k2: "?k2 ?rest2 = Some post"
    using assms(2) S2 by (rule tail_matches)
  have none: "?k2 (v @ ?rest2) = None" if "core = u @ v" "u \<noteq> []" "v \<noteq> []" for u v
    using that(1,3) assms(5) S2 assms(9) by (rule tail_fails_inside)
  have lazy: "dot_lazy ?k2 [] (core @ ?rest2) = Some ([] @ core, post)"
    using k2 assms(3,6) none by (rule dot_lazy_exact)
  have "spaces_greedy ?k1 (core @ ?rest2) = None"
    using assms(3,4) by (intro spaces_greedy_no_space) simp
  moreover have S1: "'' '' @ a \<noteq> []" "\<forall>c \<in> set ('' '' @ a). is_space c"
    using assms(7) by (simp_all add: is_space_def)
  moreover have "?k1 (core @ ?rest2) = Some (core, post)"
    using lazy by simp
  ultimately have g: "spaces_greedy ?k1 (('' '' @ a) @ core @ ?rest2) = Some (core, post)"
    by (intro spaces_greedy_exact)
  have l: "lit_ci ''remove'' (R @ ('' '' @ a) @ core @ ?rest2) = Some (('' '' @ a) @ core @ ?rest2)"
    using assms(1) by (rule lit_ci_append)
  have "remove_match_here (R @ ('' '' @ a) @ core @ ?rest2) = Some core"
    unfolding remove_match_here_def l using g by simp
  then show ?thesis
    by simp
qed

lemma space_then_row_append: "space_then_row t \<Longrightarrow> space_then_row (ps @ t)"
  by (induction ps) simp_all

lemma space_then_row_sublist:
  assumes "is_space c" and "map lower_chr w = ''row''" and "sublist (c # w) s"
  shows "space_then_row s"
proof -
  from assms(3) obtain ps ss where s: "s = ps @ (c # w) @ ss"
    by (auto simp: sublist_def)
  have "lit_ci ''row'' (w @ ss) = Some ss"
    using assms(2) by (rule lit_ci_append)
  with assms(1) have "space_then_row ((c # w) @ ss)"
    by simp
  then show ?thesis
    unfolding s by (rule space_then_row_append)
qed

lemma request_matches:
  assumes "map lower_chr R = ''remove''" and "map lower_chr W = ''row''"
    and "X \<noteq> []" and "CHR 0x0A \<notin> set X"
  shows "remove_match_here (R @ '' '' @ X @ '' '' @ W @ post) \<noteq> None"
proof -
  let ?k2 = "\<lambda>r3. spaces_greedy (lit_ci ''row'') r3"
  let ?k1 = "\<lambda>r2. dot_lazy ?k2 [] r2"
  have sp: "'' '' \<noteq> []" "\<forall>c \<in> set '' ''. is_space c"
    by (simp_all add: is_space_def)
  have "lit_ci ''row'' (W @ post) = Some post"
    using assms(2) by (rule lit_ci_append)
  then have "lit_ci ''row'' (W @ post) \<noteq> None"
    by simp
  with sp have "?k2 ('' '' @ W @ post) \<noteq> None"
    by (rule spaces_greedy_complete)
  with assms(3,4) have "?k1 (X @ '' '' @ W @ post) \<noteq> None"
    by (rule dot_lazy_complete)
  with sp have g: "spaces_greedy ?k1 ('' '' @ X @ '' '' @ W @ post) \<noteq> None"
    by (rule spaces_greedy_complete)
  have l: "lit_ci ''remove'' (R @ '' '' @ X @ '' '' @ W @ post) = Some ('' '' @ X @ '' '' @ W @ post)"
    using assms(1) by (rule lit_ci_append)
  show ?thesis
    unfolding remove_match_here_def l using g by simp
qed

text \<open>
  Claim C3, amended. For a text that holds the word remove, a space, a non-empty \<open>X\<close>
  without a line feed, a space and the word row (both words in any letter case), the
  classifier yields \<open>Some ''remove''\<close>. When moreover \<open>X\<close> is not white space only, the
  word remove does not occur earlier in the text, and no white-space character of \<open>X\<close> is
  directly followed by the letters of row, the group that the turn loop recovers with the
  pattern, trimmed, is \<open>X\<close> trimmed.
\<close>

theorem remove_request_target:
  assumes "lower R = ''remove''" and "lower W = ''row''" and "X \<noteq> []" and "CHR 0x0A \<notin> set X"
  shows "is_job_application (pre @ R @ '' '' @ X @ '' '' @ W @ post) = Some ''remove''
       \<and> (strip X \<noteq> [] \<and> \<not> contains ''remove'' (lower pre) \<and> \<not> space_then_row X \<longrightarrow>
            map_option strip (remove_search (pre @ R @ '' '' @ X @ '' '' @ W @ post))
              = Some (strip X))"
proof
  let ?s = "R @ '' '' @ X @ '' '' @ W @ post"
  have R: "map lower_chr R = ''remove''" and W: "map lower_chr W = ''row''"
    using assms(1,2) by (simp_all add: lower_def)
  have here: "remove_match_here ?s \<noteq> None"
    using R W assms(3,4) by (rule request_matches)
  then have "remove_search (pre @ ?s) \<noteq> None"
    by (rule remove_search_later)
  then show "is_job_application (pre @ ?s) = Some ''remove''"
    by (simp add: is_job_application_def)
  show "strip X \<noteq> [] \<and> \<not> contains ''remove'' (lower pre) \<and> \<not> space_then_row X \<longrightarrow>
      map_option strip (remove_search (pre @ ?s)) = Some (strip X)"
  proof
    assume h: "strip X \<noteq> [] \<and> \<not> contains ''remove'' (lower pre) \<and> \<not> space_then_row X"
    then have ne: "strip X \<noteq> []" and first: "\<not> contains ''remove'' (lower pre)"
      and norow: "\<not> space_then_row X"
      by simp_all
    from strip_between_spaces [of X] obtain a b where
      X: "X = a @ strip X @ b" and a: "\<forall>c \<in> set a. is_space c" and b: "\<forall>c \<in> set b. is_space c"
      by (elim exE conjE)
    have ends: "\<not> is_space (hd (strip X))" "\<not> is_space (last (strip X))"
      using strip_ends [OF ne] by simp_all
    have sub: "sublist (strip X) X"
      by (subst (2) X) (rule sublist_appendI)
    have nl: "CHR 0x0A \<notin> set (strip X)"
      using assms(4) sub by (meson set_mono_sublist subsetD)
    have inner: "\<not> (\<exists>c w. is_space c \<and> map lower_chr w = ''row'' \<and> sublist (c # w) (strip X))"
    proof
      assume "\<exists>c w. is_space c \<and> map lower_chr w = ''row'' \<and> sublist (c # w) (strip X)"
      then obtain c w where cw: "is_space c" "map lower_chr w = ''row''" "sublist (c # w) (strip X)"
        by (elim exE conjE)
      from cw(3) sub have "sublist (c # w) X"
        by (rule sublist_order.order.trans)
      with cw(1,2) have "space_then_row X"
        by (rule space_then_row_sublist)
      with norow show False ..
    qed
    have cap: "remove_match_here (R @ '' '' @ a @ strip X @ b @ '' '' @ W @ post) = Some (strip X)"
      using R W ne ends nl a b inner by (rule capture_at_request)
    have s: "?s = R @ '' '' @ a @ strip X @ b @ '' '' @ W @ post"
      by (subst X) simp
    have cap': "remove_match_here ?s = Some (strip X)"
      unfolding s by (rule cap)
    have skip: "remove_match_here (v @ ?s) = None" if "pre = u @ v" "v \<noteq> []" for u v
    proof -
      from first that(1) have "\<not> contains ''remove'' (lower (u @ v))"
        by simp
      with R have "lit_ci ''remove'' (v @ R @ '' '' @ X @ '' '' @ W @ post) = None"
        using that(2) by (rule no_earlier_remove)
      then show ?thesis
        by (simp add: remove_match_here_def)
    qed
    have "remove_search (pre @ ?s) = remove_search ?s"
      using skip by (rule remove_search_skip)
    also have "\<dots> = remove_match_here ?s"
      using cap' by (intro remove_search_here) simp
    finally have "remove_search (pre @ ?s) = Some (strip X)"
      using cap' by simp
    then show "map_option strip (remove_search (pre @ ?s)) = Some (strip X)"
      by (simp add: strip_strip)
  qed
qed

theorem remove_request_target_witness:
  "is_job_application (''please '' @ ''Remove'' @ '' '' @ ''  Goldman Sachs '' @ '' '' @ ''ROW'' @ '' now'')
     = Some ''remove''
   \<and> map_option strip
        (remove_search (''please '' @ ''Remove'' @ '' '' @ ''  Goldman Sachs '' @ '' '' @ ''ROW'' @ '' now''))
     = Some ''Goldman Sachs''"
proof -
  have a: "lower ''Remove'' = ''remove''" and b: "lower ''ROW'' = ''row''"
    by (simp_all add: text_eval)
  have c: "''  Goldman Sachs '' \<noteq> []" and d: "CHR 0x0A \<notin> set ''  Goldman Sachs ''"
    by simp_all
  have e: "strip ''  Goldman Sachs '' = ''Goldman Sachs''"
    by (simp add: text_eval)
  have f: "\<not> contains ''remove'' (lower ''please '')"
    by (simp add: contains_def sublist_Cons_right text_eval)
  have g: "\<not> space_then_row ''  Goldman Sachs ''"
    by (simp add: text_eval)
  from remove_request_target [OF a b c d, of "''please ''" "'' now''"] e f g
  show ?thesis
    by simp
qed

theorem remove_request_line_feed_counterexample:
  "is_job_application (''remove'' @ '' '' @ (''a'' @ nl @ ''b'') @ '' '' @ ''row'') = None
   \<and> map_option strip (remove_search (''remove a row, '' @ ''remove'' @ '' '' @ ''b'' @ '' '' @ ''row''))
       = Some ''a''"
  by (simp add: is_job_application_def remove_match_here_def job_keywords_def contains_def
      sublist_Cons_right text_eval)

end
